theory Spec2Isabelle
  imports Complex_Main "HOL-Library.Signed_Division"
begin

section \<open>Key estimation from pitch-class profiles: Key2 and KeyEDM\<close>

text \<open>
  A shallow embedding of \<^verbatim>\<open>src/essentia/key2.cpp\<close> and
  \<^verbatim>\<open>src/essentia/src/algorithms/tonal/keyEDM.cpp\<close>.

  Conventions of the embedding.
  \<^item> The C++ type \<^verbatim>\<open>Real\<close> is a floating-point type.  The values of the pitch-class
    profile, of the templates and of all sums are modelled by exact real numbers: rounding
    and overflow are not modelled.  The one place where the code can leave the finite
    numbers is a division; its result has the type \<open>Real\<close> below, which adds the two
    infinities and NaN to the finite numbers, with the comparisons of IEEE 754 (every
    comparison with NaN is false).  A zero denominator is the positive zero that
    \<^verbatim>\<open>sqrt\<close> and the products of non-negative numbers return.
  \<^item> The C++ type \<^verbatim>\<open>int\<close> is modelled by unbounded integers, with the truncating
    division and remainder of C (\<open>sdiv\<close>, \<open>smod\<close>).  Sizes of vectors are natural numbers.
    The sizes considered are those for which \<open>12 * pcpsize\<close> stays in the range of
    \<^verbatim>\<open>int\<close>.
  \<^item> An exception is a value of the type \<open>error\<close>; a function that can throw returns a
    sum.  Reading \<^verbatim>\<open>_keys[keyIndex]\<close> outside the vector, which C++ leaves
    undefined, is the error \<open>IndexOutOfRange\<close>.
  \<^item> The member variables of an algorithm object are a record that \<open>configure\<close>,
    \<open>resize\<close> and \<open>compute\<close> take and return.  A leading underscore of a member's
    name is replaced by the prefix \<open>k2_\<close> (Key2) or \<open>edm_\<close> (KeyEDM).
\<close>

subsection \<open>Floating-point results\<close>

datatype Real = Fin real | PInf | NInf | NaN

text \<open>\<open>fgt a b\<close> is the C++ comparison \<^verbatim>\<open>a > b\<close>, \<open>fge a b\<close> is \<^verbatim>\<open>a >= b\<close>.\<close>

fun fgt :: "Real \<Rightarrow> Real \<Rightarrow> bool" where
  "fgt (Fin a) (Fin b) = (b < a)"
| "fgt NaN _ = False"
| "fgt _ NaN = False"
| "fgt PInf PInf = False"
| "fgt PInf _ = True"
| "fgt NInf _ = False"
| "fgt (Fin a) PInf = False"
| "fgt (Fin a) NInf = True"

definition fge :: "Real \<Rightarrow> Real \<Rightarrow> bool" where
  "fge a b = (fgt a b \<or> (a = b \<and> a \<noteq> NaN))"

fun fsub :: "Real \<Rightarrow> Real \<Rightarrow> Real" where
  "fsub (Fin a) (Fin b) = Fin (a - b)"
| "fsub NaN _ = NaN"
| "fsub _ NaN = NaN"
| "fsub PInf PInf = NaN"
| "fsub NInf NInf = NaN"
| "fsub PInf _ = PInf"
| "fsub NInf _ = NInf"
| "fsub (Fin a) PInf = NInf"
| "fsub (Fin a) NInf = PInf"

fun fdiv :: "Real \<Rightarrow> Real \<Rightarrow> Real" where
  "fdiv (Fin a) (Fin b) =
     (if b \<noteq> 0 then Fin (a / b)
      else if 0 < a then PInf else if a < 0 then NInf else NaN)"
| "fdiv NaN _ = NaN"
| "fdiv _ NaN = NaN"
| "fdiv (Fin a) _ = Fin 0"
| "fdiv PInf (Fin b) = (if 0 \<le> b then PInf else NInf)"
| "fdiv NInf (Fin b) = (if 0 \<le> b then NInf else PInf)"
| "fdiv _ _ = NaN"

text \<open>The C++ conversion \<^verbatim>\<open>(int) x\<close> of a finite value: truncation towards zero.\<close>

definition c_int_cast :: "real \<Rightarrow> int" where
  "c_int_cast x = (if 0 \<le> x then \<lfloor>x\<rfloor> else \<lceil>x\<rceil>)"

subsection \<open>Errors and outputs\<close>

datatype error = UnsupportedProfileType | InvalidProfileSize | KeyNotFound | IndexOutOfRange

record KeyEstimate =
  key :: string
  scale :: string
  strength :: Real
  firstToSecondRelativeStrength :: Real

subsection \<open>Helpers of both algorithms\<close>

text \<open>
  Modelled from the spec: \<^verbatim>\<open>mean\<close> is declared in \<^verbatim>\<open>essentiamath.h\<close>, which is not
  among the source files; the spec calls its result the arithmetic mean of the values.
\<close>

definition mean :: "real list \<Rightarrow> real" where
  "mean v = sum_list v / real (length v)"

text \<open>\<^verbatim>\<open>std::vector::resize\<close>: the first elements are kept, new ones are zero.\<close>

definition vector_resize :: "nat \<Rightarrow> real list \<Rightarrow> real list" where
  "vector_resize n v = take n v @ replicate (n - length v) 0"

text \<open>
  The loop \<^verbatim>\<open>for (i = 0; i < pcpsize; i++) s += (v[i] - mean) * (v[i] - mean)\<close> that
  \<open>compute\<close> runs on the PCP and \<open>resize\<close> on each interpolated profile.
\<close>

definition sum_sq_dev :: "real list \<Rightarrow> real \<Rightarrow> nat \<Rightarrow> real" where
  "sum_sq_dev v mu pcpsize = fold (\<lambda>i s. s + (v ! i - mu) * (v ! i - mu)) [0..<pcpsize] 0"

text \<open>
  The interpolation loop of \<open>resize\<close> for one template \<open>T\<close> and its vector \<open>prof\<close>
  (the source runs it on two or three independent vectors in lockstep).  A write outside
  the vector is undefined in C++ and leaves the list as it is here; it can only happen for
  \<open>pcpsize = 0\<close>, which the parameter range \<^verbatim>\<open>[12,inf)\<close> and the size check of
  \<open>compute\<close> exclude.
\<close>

definition interpolate :: "real list \<Rightarrow> nat \<Rightarrow> real list \<Rightarrow> real list" where
  "interpolate T n prof =
     fold (\<lambda>i p.
        let p1 = p[i * n := T ! i];
            incr = (if i = 11 then (T ! 11 - T ! 0) / real n
                    else (T ! i - T ! (i + 1)) / real n)
        in fold (\<lambda>j q. q[i * n + j := T ! i - real j * incr]) [1..<n] p1)
       [0..<12] prof"

text \<open>\<open>correlation\<close> is the same function in both classes.\<close>

definition correlation ::
  "real list \<Rightarrow> real \<Rightarrow> real \<Rightarrow> real list \<Rightarrow> real \<Rightarrow> real \<Rightarrow> int \<Rightarrow> Real" where
  "correlation v1 mean1 std1 v2 mean2 std2 shift =
     (let sz = int (length v1);
          r = fold (\<lambda>i r.
                 let index = (int i - shift) smod sz;
                     index = (if index < 0 then index + sz else index)
                 in r + (v1 ! i - mean1) * (v2 ! nat index - mean2))
                [0..<length v1] 0
      in fdiv (Fin r) (Fin (std1 * std2)))"

text \<open>
  The three variables the scan keeps for one mode: the maximum, the second maximum and
  the index of the maximum, all initialised to \<open>-1\<close>; \<open>update\<close> is the \<^verbatim>\<open>if\<close> of the
  loop body.
\<close>

type_synonym track = "Real \<times> Real \<times> int"

definition track0 :: track where
  "track0 = (Fin (- 1), Fin (- 1), - 1)"

definition update :: "Real \<Rightarrow> int \<Rightarrow> track \<Rightarrow> track" where
  "update corr shift t =
     (case t of (maxv, max2v, keyIndexv) \<Rightarrow>
        if fgt corr maxv then (corr, maxv, shift) else t)"

text \<open>The expression \<^verbatim>\<open>(int) (keyIndexMajor * 12 / pcpsize + 0.5)\<close>.\<close>

definition keyIndex_of :: "int \<Rightarrow> nat \<Rightarrow> int" where
  "keyIndex_of k pcpsize = c_int_cast (real_of_int ((k * 12) sdiv int pcpsize) + 0.5)"

definition keyNames :: "string list" where
  "keyNames = [''A'', ''Bb'', ''B'', ''C'', ''C#'', ''D'', ''Eb'', ''E'', ''F'', ''F#'', ''G'', ''Ab'']"

definition key_at :: "string list \<Rightarrow> int \<Rightarrow> error + string" where
  "key_at ks i = (if 0 \<le> i \<and> nat i < length ks then Inr (ks ! nat i) else Inl IndexOutOfRange)"

text \<open>\<^verbatim>\<open>(max - max2) / max\<close>\<close>

definition relativeStrength :: "Real \<Rightarrow> Real \<Rightarrow> Real" where
  "relativeStrength maxv max2v = fdiv (fsub maxv max2v) maxv"

subsection \<open>Key2\<close>

datatype Key2_Scales = MAJOR | MINOR | OTHER

record Key2_state =
  k2_M :: "real list"
  k2_m :: "real list"
  k2_O :: "real list"
  k2_profile_doM :: "real list"
  k2_profile_dom :: "real list"
  k2_profile_doO :: "real list"
  k2_mean_profile_M :: real
  k2_mean_profile_m :: real
  k2_mean_profile_O :: real
  k2_std_profile_M :: real
  k2_std_profile_m :: real
  k2_std_profile_O :: real
  k2_profileType :: string
  k2_keys :: "string list"

definition Key2_profileTypes :: "real list list" where
  "Key2_profileTypes =
   [[1.0000, 0.1573, 0.4200, 0.1570, 0.5296, 0.3669, 0.1632, 0.7711, 0.1676, 0.3827, 0.2113, 0.2965],
    [1.0000, 0.2330, 0.3615, 0.3905, 0.2925, 0.3777, 0.1961, 0.7425, 0.2701, 0.2161, 0.4228, 0.2272],
    [1.0000, 0.2608, 0.3528, 0.2935, 0.4393, 0.3580, 0.2137, 0.7809, 0.2578, 0.2539, 0.3233, 0.2615],
    [1.00, 0.10, 0.42, 0.10, 0.53, 0.37, 0.10, 0.77, 0.10, 0.38, 0.21, 0.30],
    [1.00, 0.10, 0.36, 0.39, 0.29, 0.38, 0.10, 0.74, 0.27, 0.10, 0.42, 0.23],
    [1.00, 0.26, 0.35, 0.29, 0.44, 0.36, 0.21, 0.78, 0.26, 0.25, 0.32, 0.26],
    [1.00, 0.00, 0.42, 0.00, 0.53, 0.37, 0.00, 0.76, 0.00, 0.38, 0.21, 0.30],
    [1.00, 0.00, 0.36, 0.39, 0.10, 0.37, 0.00, 0.76, 0.27, 0.00, 0.42, 0.23],
    [1.00, 0.26, 0.35, 0.29, 0.44, 0.37, 0.21, 0.76, 0.26, 0.25, 0.32, 0.26],
    [1.00, 0.29, 0.50, 0.40, 0.60, 0.56, 0.32, 0.80, 0.31, 0.45, 0.42, 0.39],
    [1.00, 0.31, 0.44, 0.58, 0.33, 0.49, 0.29, 0.78, 0.43, 0.29, 0.53, 0.32],
    [1.00, 0.26, 0.35, 0.29, 0.44, 0.36, 0.21, 0.78, 0.26, 0.25, 0.32, 0.26]]"

text \<open>The macro \<^verbatim>\<open>SET_PROFILE(i)\<close> of \<^verbatim>\<open>Key2::configure\<close>.\<close>

definition Key2_SET_PROFILE :: "nat \<Rightarrow> Key2_state \<Rightarrow> Key2_state" where
  "Key2_SET_PROFILE i st =
     st\<lparr>k2_M := Key2_profileTypes ! (3 * i),
        k2_m := Key2_profileTypes ! (3 * i + 1),
        k2_O := Key2_profileTypes ! (3 * i + 2)\<rparr>"

definition Key2_resize :: "nat \<Rightarrow> Key2_state \<Rightarrow> Key2_state" where
  "Key2_resize pcpsize st =
     (let n = pcpsize div 12;
          pM = interpolate (k2_M st) n (vector_resize pcpsize (k2_profile_doM st));
          pm = interpolate (k2_m st) n (vector_resize pcpsize (k2_profile_dom st));
          pO = interpolate (k2_O st) n (vector_resize pcpsize (k2_profile_doO st));
          mean_M = mean pM;
          mean_m = mean pm;
          mean_O = mean pO
      in st\<lparr>k2_profile_doM := pM, k2_profile_dom := pm, k2_profile_doO := pO,
            k2_mean_profile_M := mean_M, k2_mean_profile_m := mean_m,
            k2_mean_profile_O := mean_O,
            k2_std_profile_M := sqrt (sum_sq_dev pM mean_M pcpsize),
            k2_std_profile_m := sqrt (sum_sq_dev pm mean_m pcpsize),
            k2_std_profile_O := sqrt (sum_sq_dev pO mean_O pcpsize)\<rparr>)"

text \<open>
  \<open>profileType\<close> and \<open>pcpSize\<close> are the values of the parameters that
  \<^verbatim>\<open>configure\<close> reads with \<^verbatim>\<open>parameter(...)\<close>.
\<close>

definition Key2_configure :: "string \<Rightarrow> nat \<Rightarrow> Key2_state \<Rightarrow> error + Key2_state" where
  "Key2_configure profileType pcpSize st =
     (let st1 = st\<lparr>k2_profileType := profileType, k2_keys := keyNames\<rparr> in
      if profileType = ''bmtg1'' then Inr (Key2_resize pcpSize (Key2_SET_PROFILE 0 st1))
      else if profileType = ''bmtg2'' then Inr (Key2_resize pcpSize (Key2_SET_PROFILE 1 st1))
      else if profileType = ''bmtg3'' then Inr (Key2_resize pcpSize (Key2_SET_PROFILE 2 st1))
      else if profileType = ''edma'' then Inr (Key2_resize pcpSize (Key2_SET_PROFILE 3 st1))
      else Inl UnsupportedProfileType)"

text \<open>
  The scan of \<^verbatim>\<open>Key2::compute\<close> (lines 152 to 192) over the shifts \<open>0, ..., pcpsize - 1\<close>;
  \<open>corrMajor\<close>, \<open>corrMinor\<close> and \<open>corrOther\<close> give the correlation at a shift.
\<close>

definition Key2_scan ::
  "(int \<Rightarrow> Real) \<Rightarrow> (int \<Rightarrow> Real) \<Rightarrow> (int \<Rightarrow> Real) \<Rightarrow> nat \<Rightarrow> track \<times> track \<times> track" where
  "Key2_scan corrMajor corrMinor corrOther pcpsize =
     fold (\<lambda>shift (tM, tm, tO).
             (update (corrMajor (int shift)) (int shift) tM,
              update (corrMinor (int shift)) (int shift) tm,
              update (corrOther (int shift)) (int shift) tO))
       [0..<pcpsize] (track0, track0, track0)"

text \<open>
  The cascade of lines 196 to 215.  The result is the values of \<^verbatim>\<open>keyIndex\<close>,
  \<^verbatim>\<open>scale\<close>, \<^verbatim>\<open>max\<close> and \<^verbatim>\<open>max2\<close> after it; when no branch is taken they keep
  their initial values.
\<close>

definition Key2_select ::
  "track \<Rightarrow> track \<Rightarrow> track \<Rightarrow> nat \<Rightarrow> int \<times> Key2_Scales \<times> Real \<times> Real" where
  "Key2_select tM tm tO pcpsize =
     (case (tM, tm, tO) of
        ((maxMajor, max2Major, keyIndexMajor),
         (maxMinor, max2Minor, keyIndexMinor),
         (maxOther, max2Other, keyIndexOther)) \<Rightarrow>
        if fgt maxMajor maxMinor \<and> fgt maxMajor maxOther
        then (keyIndex_of keyIndexMajor pcpsize, MAJOR, maxMajor, max2Major)
        else if fge maxMinor maxMajor \<and> fge maxMinor maxOther
        then (keyIndex_of keyIndexMinor pcpsize, MINOR, maxMinor, max2Minor)
        else if fgt maxOther maxMajor \<and> fgt maxOther maxMinor
        then (keyIndex_of keyIndexOther pcpsize, OTHER, maxOther, max2Other)
        else (- 1, MAJOR, Fin (- 1), Fin (- 1)))"

definition Key2_scale_name :: "Key2_Scales \<Rightarrow> string" where
  "Key2_scale_name sc =
     (if sc = MAJOR then ''major'' else if sc = MINOR then ''minor'' else ''minor'')"

text \<open>Lines 196 to 266: the cascade, the test of \<^verbatim>\<open>keyIndex\<close> and the outputs.\<close>

definition Key2_decide ::
  "string list \<Rightarrow> track \<times> track \<times> track \<Rightarrow> nat \<Rightarrow> error + KeyEstimate" where
  "Key2_decide ks ts pcpsize =
     (case ts of (tM, tm, tO) \<Rightarrow>
      case Key2_select tM tm tO pcpsize of (keyIndex, sc, maxv, max2v) \<Rightarrow>
        if keyIndex < 0 then Inl KeyNotFound
        else case key_at ks keyIndex of
               Inl e \<Rightarrow> Inl e
             | Inr k \<Rightarrow> Inr \<lparr>key = k, scale = Key2_scale_name sc, strength = maxv,
                             firstToSecondRelativeStrength = relativeStrength maxv max2v\<rparr>)"

text \<open>
  \<^verbatim>\<open>Key2::compute\<close>.  The result is the outputs or the exception, and the state of the
  object after the call.
\<close>

definition Key2_compute :: "real list \<Rightarrow> Key2_state \<Rightarrow> (error + KeyEstimate) \<times> Key2_state" where
  "Key2_compute pcp st =
     (let pcpsize = length pcp in
      if pcpsize < 12 \<or> pcpsize mod 12 \<noteq> 0 then (Inl InvalidProfileSize, st)
      else
        let st1 = (if pcpsize \<noteq> length (k2_profile_dom st) then Key2_resize pcpsize st else st);
            mean_pcp = mean pcp;
            std_pcp = sqrt (sum_sq_dev pcp mean_pcp pcpsize);
            ts = Key2_scan
                   (correlation pcp mean_pcp std_pcp (k2_profile_doM st1)
                      (k2_mean_profile_M st1) (k2_std_profile_M st1))
                   (correlation pcp mean_pcp std_pcp (k2_profile_dom st1)
                      (k2_mean_profile_m st1) (k2_std_profile_m st1))
                   (correlation pcp mean_pcp std_pcp (k2_profile_doO st1)
                      (k2_mean_profile_O st1) (k2_std_profile_O st1))
                   pcpsize
        in (Key2_decide (k2_keys st1) ts pcpsize, st1))"

subsection \<open>KeyEDM\<close>

datatype KeyEDM_Scales = EDM_MAJOR | EDM_MINOR

record KeyEDM_state =
  edm_M :: "real list"
  edm_m :: "real list"
  edm_profile_doM :: "real list"
  edm_profile_dom :: "real list"
  edm_mean_profile_M :: real
  edm_mean_profile_m :: real
  edm_std_profile_M :: real
  edm_std_profile_m :: real
  edm_profileType :: string
  edm_keys :: "string list"

definition KeyEDM_profileTypes :: "real list list" where
  "KeyEDM_profileTypes =
   [[5.0, 2.0, 3.5, 2.0, 4.5, 4.0, 2.0, 4.5, 2.0, 3.5, 1.5, 4.0],
    [5.0, 2.0, 3.5, 4.5, 2.0, 4.0, 2.0, 4.5, 3.5, 2.0, 1.5, 4.0],
    [6.6, 2.0, 3.5, 2.3, 4.6, 4.0, 2.5, 5.2, 2.4, 3.7, 2.3, 3.4],
    [6.5, 2.7, 3.5, 5.4, 2.6, 3.5, 2.5, 5.2, 4.0, 2.7, 4.3, 3.2],
    [0.16519551, 0.04749026, 0.08293076, 0.06687112, 0.09994645, 0.09274123,
     0.05294487, 0.13159476, 0.05218986, 0.07443653, 0.06940723, 0.0642515],
    [0.17235348, 0.05336489, 0.0761009, 0.10043649, 0.05621498, 0.08527853,
     0.0497915, 0.13451001, 0.07458916, 0.05003023, 0.09187879, 0.05545106],
    [0.083, 0.083, 0.083, 0.083, 0.083, 0.083, 0.083, 0.083, 0.083, 0.083, 0.083, 0.083],
    [0.17235348, 0.04, 0.0761009, 0.12, 0.05621498, 0.08527853,
     0.0497915, 0.13451001, 0.07458916, 0.05003023, 0.09187879, 0.05545106]]"

text \<open>
  The parameter range that \<^verbatim>\<open>KeyEDM::declareParameters\<close> (keyEDM.h) gives
  \<^verbatim>\<open>profileType\<close>, and the one of \<^verbatim>\<open>Key2::declareParameters\<close> (key2.h).
\<close>

definition KeyEDM_declared_profileTypes :: "string list" where
  "KeyEDM_declared_profileTypes = [''edma'', ''edmm'', ''bmtg1'', ''bmtg2'', ''bmtg3'']"

definition Key2_declared_profileTypes :: "string list" where
  "Key2_declared_profileTypes = [''bmtg1'', ''bmtg2'', ''bmtg3'', ''edma'']"

definition KeyEDM_SET_PROFILE :: "nat \<Rightarrow> KeyEDM_state \<Rightarrow> KeyEDM_state" where
  "KeyEDM_SET_PROFILE i st =
     st\<lparr>edm_M := KeyEDM_profileTypes ! (2 * i),
        edm_m := KeyEDM_profileTypes ! (2 * i + 1)\<rparr>"

definition KeyEDM_resize :: "nat \<Rightarrow> KeyEDM_state \<Rightarrow> KeyEDM_state" where
  "KeyEDM_resize pcpsize st =
     (let n = pcpsize div 12;
          pM = interpolate (edm_M st) n (vector_resize pcpsize (edm_profile_doM st));
          pm = interpolate (edm_m st) n (vector_resize pcpsize (edm_profile_dom st));
          mean_M = mean pM;
          mean_m = mean pm
      in st\<lparr>edm_profile_doM := pM, edm_profile_dom := pm,
            edm_mean_profile_M := mean_M, edm_mean_profile_m := mean_m,
            edm_std_profile_M := sqrt (sum_sq_dev pM mean_M pcpsize),
            edm_std_profile_m := sqrt (sum_sq_dev pm mean_m pcpsize)\<rparr>)"

definition KeyEDM_configure :: "string \<Rightarrow> nat \<Rightarrow> KeyEDM_state \<Rightarrow> error + KeyEDM_state" where
  "KeyEDM_configure profileType pcpSize st =
     (let st1 = st\<lparr>edm_profileType := profileType, edm_keys := keyNames\<rparr> in
      if profileType = ''temperley'' then Inr (KeyEDM_resize pcpSize (KeyEDM_SET_PROFILE 0 st1))
      else if profileType = ''shaath'' then Inr (KeyEDM_resize pcpSize (KeyEDM_SET_PROFILE 1 st1))
      else if profileType = ''edma'' then Inr (KeyEDM_resize pcpSize (KeyEDM_SET_PROFILE 2 st1))
      else if profileType = ''edmm'' then Inr (KeyEDM_resize pcpSize (KeyEDM_SET_PROFILE 3 st1))
      else Inl UnsupportedProfileType)"

definition KeyEDM_scan :: "(int \<Rightarrow> Real) \<Rightarrow> (int \<Rightarrow> Real) \<Rightarrow> nat \<Rightarrow> track \<times> track" where
  "KeyEDM_scan corrMajor corrMinor pcpsize =
     fold (\<lambda>shift (tM, tm).
             (update (corrMajor (int shift)) (int shift) tM,
              update (corrMinor (int shift)) (int shift) tm))
       [0..<pcpsize] (track0, track0)"

definition KeyEDM_select :: "track \<Rightarrow> track \<Rightarrow> nat \<Rightarrow> int \<times> KeyEDM_Scales \<times> Real \<times> Real" where
  "KeyEDM_select tM tm pcpsize =
     (case (tM, tm) of
        ((maxMaj, max2Maj, keyIndexMaj), (maxMin, max2Min, keyIndexMin)) \<Rightarrow>
        if fge maxMaj maxMin
        then (keyIndex_of keyIndexMaj pcpsize, EDM_MAJOR, maxMaj, max2Maj)
        else (keyIndex_of keyIndexMin pcpsize, EDM_MINOR, maxMin, max2Min))"

definition KeyEDM_scale_name :: "KeyEDM_Scales \<Rightarrow> string" where
  "KeyEDM_scale_name sc = (if sc = EDM_MAJOR then ''major'' else ''minor'')"

definition KeyEDM_decide ::
  "string list \<Rightarrow> track \<times> track \<Rightarrow> nat \<Rightarrow> error + KeyEstimate" where
  "KeyEDM_decide ks ts pcpsize =
     (case ts of (tM, tm) \<Rightarrow>
      case KeyEDM_select tM tm pcpsize of (keyIndex, sc, maxv, max2v) \<Rightarrow>
        if keyIndex < 0 then Inl KeyNotFound
        else case key_at ks keyIndex of
               Inl e \<Rightarrow> Inl e
             | Inr k \<Rightarrow> Inr \<lparr>key = k, scale = KeyEDM_scale_name sc, strength = maxv,
                             firstToSecondRelativeStrength = relativeStrength maxv max2v\<rparr>)"

definition KeyEDM_compute ::
  "real list \<Rightarrow> KeyEDM_state \<Rightarrow> (error + KeyEstimate) \<times> KeyEDM_state" where
  "KeyEDM_compute pcp st =
     (let pcpsize = length pcp in
      if pcpsize < 12 \<or> pcpsize mod 12 \<noteq> 0 then (Inl InvalidProfileSize, st)
      else
        let st1 = (if pcpsize \<noteq> length (edm_profile_dom st) then KeyEDM_resize pcpsize st else st);
            mean_pcp = mean pcp;
            std_pcp = sqrt (sum_sq_dev pcp mean_pcp pcpsize);
            ts = KeyEDM_scan
                   (correlation pcp mean_pcp std_pcp (edm_profile_doM st1)
                      (edm_mean_profile_M st1) (edm_std_profile_M st1))
                   (correlation pcp mean_pcp std_pcp (edm_profile_dom st1)
                      (edm_mean_profile_m st1) (edm_std_profile_m st1))
                   pcpsize
        in (KeyEDM_decide (edm_keys st1) ts pcpsize, st1))"

subsection \<open>Auxiliary definitions for the statements\<close>

text \<open>
  The scan of one mode alone: both \<open>Key2_scan\<close> and \<open>KeyEDM_scan\<close> run it on each of
  their modes (lemmas \<open>Key2_scan_eq\<close> and \<open>KeyEDM_scan_eq\<close>).
\<close>

definition scan :: "(int \<Rightarrow> Real) \<Rightarrow> nat \<Rightarrow> track" where
  "scan corr pcpsize = fold (\<lambda>shift. update (corr (int shift)) (int shift)) [0..<pcpsize] track0"

text \<open>
  An object before its first \<open>configure\<close>: the vectors are empty.  The numbers written
  for the means and deviations stand for uninitialised members; \<open>resize\<close> sets them
  before anything reads them.
\<close>

definition Key2_new :: Key2_state where
  "Key2_new = \<lparr>k2_M = [], k2_m = [], k2_O = [], k2_profile_doM = [], k2_profile_dom = [],
     k2_profile_doO = [], k2_mean_profile_M = 0, k2_mean_profile_m = 0, k2_mean_profile_O = 0,
     k2_std_profile_M = 0, k2_std_profile_m = 0, k2_std_profile_O = 0,
     k2_profileType = [], k2_keys = []\<rparr>"

definition KeyEDM_new :: KeyEDM_state where
  "KeyEDM_new = \<lparr>edm_M = [], edm_m = [], edm_profile_doM = [], edm_profile_dom = [],
     edm_mean_profile_M = 0, edm_mean_profile_m = 0,
     edm_std_profile_M = 0, edm_std_profile_m = 0,
     edm_profileType = [], edm_keys = []\<rparr>"

text \<open>
  Names for parts of \<open>compute\<close>: the state after the test of the cached size
  (\<open>prepare\<close>), the correlation of the PCP with one profile (\<open>pcp_corr\<close>), and the
  variables of all modes after the scan (\<open>tracks\<close>).
\<close>

definition pcp_corr :: "real list \<Rightarrow> real list \<Rightarrow> real \<Rightarrow> real \<Rightarrow> int \<Rightarrow> Real" where
  "pcp_corr pcp prof mean_prof std_prof =
     correlation pcp (mean pcp) (sqrt (sum_sq_dev pcp (mean pcp) (length pcp)))
       prof mean_prof std_prof"

definition Key2_prepare :: "nat \<Rightarrow> Key2_state \<Rightarrow> Key2_state" where
  "Key2_prepare pcpsize st =
     (if pcpsize \<noteq> length (k2_profile_dom st) then Key2_resize pcpsize st else st)"

definition Key2_tracks :: "real list \<Rightarrow> Key2_state \<Rightarrow> track \<times> track \<times> track" where
  "Key2_tracks pcp st =
     (let st1 = Key2_prepare (length pcp) st in
      (scan (pcp_corr pcp (k2_profile_doM st1) (k2_mean_profile_M st1) (k2_std_profile_M st1))
         (length pcp),
       scan (pcp_corr pcp (k2_profile_dom st1) (k2_mean_profile_m st1) (k2_std_profile_m st1))
         (length pcp),
       scan (pcp_corr pcp (k2_profile_doO st1) (k2_mean_profile_O st1) (k2_std_profile_O st1))
         (length pcp)))"

definition KeyEDM_prepare :: "nat \<Rightarrow> KeyEDM_state \<Rightarrow> KeyEDM_state" where
  "KeyEDM_prepare pcpsize st =
     (if pcpsize \<noteq> length (edm_profile_dom st) then KeyEDM_resize pcpsize st else st)"

definition KeyEDM_tracks :: "real list \<Rightarrow> KeyEDM_state \<Rightarrow> track \<times> track" where
  "KeyEDM_tracks pcp st =
     (let st1 = KeyEDM_prepare (length pcp) st in
      (scan (pcp_corr pcp (edm_profile_doM st1) (edm_mean_profile_M st1) (edm_std_profile_M st1))
         (length pcp),
       scan (pcp_corr pcp (edm_profile_dom st1) (edm_mean_profile_m st1) (edm_std_profile_m st1))
         (length pcp)))"

text \<open>
  The mode selection as the specification words it (section 4.4, step 4), for the mode set
  of Key2 and for the one of KeyEDM, and the label reported for a mode.
\<close>

datatype mode = Major | Minor | Other

definition spec_select3 :: "Real \<Rightarrow> Real \<Rightarrow> Real \<Rightarrow> mode option" where
  "spec_select3 maxMajor maxMinor maxOther =
     (if fgt maxMajor maxMinor \<and> fgt maxMajor maxOther then Some Major
      else if fge maxMinor maxMajor \<and> fge maxMinor maxOther then Some Minor
      else if fgt maxOther maxMajor \<and> fgt maxOther maxMinor then Some Other
      else None)"

definition spec_select2 :: "Real \<Rightarrow> Real \<Rightarrow> mode" where
  "spec_select2 maxMajor maxMinor = (if fge maxMajor maxMinor then Major else Minor)"

fun spec_label :: "mode \<Rightarrow> string" where
  "spec_label Major = ''major''"
| "spec_label Minor = ''minor''"
| "spec_label Other = ''minor''"

text \<open>Objects configured from a new one, and PCPs used as concrete inputs.\<close>

definition Key2_configured :: "string \<Rightarrow> nat \<Rightarrow> Key2_state" where
  "Key2_configured profileType pcpSize =
     (case Key2_configure profileType pcpSize Key2_new of Inr st \<Rightarrow> st | Inl e \<Rightarrow> Key2_new)"

definition KeyEDM_configured :: "string \<Rightarrow> nat \<Rightarrow> KeyEDM_state" where
  "KeyEDM_configured profileType pcpSize =
     (case KeyEDM_configure profileType pcpSize KeyEDM_new of Inr st \<Rightarrow> st | Inl e \<Rightarrow> KeyEDM_new)"

definition pcp_unit12 :: "real list" where
  "pcp_unit12 = [1, 0, 0, 0, 0, 0, 0, 0, 0, 0, 0, 0]"

text \<open>
  The interpolated profile as the specification words it (sections 3 and 4.2): \<open>P\<close> has
  \<open>12 * n\<close> values, the template value \<open>T ! i\<close> stands at the anchor \<open>i * n\<close>, the
  \<open>n - 1\<close> positions after it descend by the increment towards the next anchor, \<open>mu\<close> is
  the arithmetic mean of all values and \<open>sd\<close> the root of the sum of the squared
  deviations, not divided by the number of values.
\<close>

definition spec_interpolated :: "real list \<Rightarrow> nat \<Rightarrow> real list \<Rightarrow> real \<Rightarrow> real \<Rightarrow> bool" where
  "spec_interpolated T n P mu sd =
     (length P = 12 * n \<and>
      (\<forall>i<12. P ! (i * n) = T ! i \<and>
         (\<forall>j\<in>{1..<n}. P ! (i * n + j) =
             T ! i - real j * ((T ! i - T ! ((i + 1) mod 12)) / real n))) \<and>
      mu = (\<Sum>k<12 * n. P ! k) / real (12 * n) \<and>
      sd = sqrt (\<Sum>k<12 * n. (P ! k - mu)\<^sup>2))"

text \<open>One step of the outer loop of \<open>interpolate\<close>, and the value it leaves at a position.\<close>

definition interp_step :: "real list \<Rightarrow> nat \<Rightarrow> nat \<Rightarrow> real list \<Rightarrow> real list" where
  "interp_step T n i p =
       (let p1 = p[i * n := T ! i];
            incr = (if i = 11 then (T ! 11 - T ! 0) / real n
                    else (T ! i - T ! (i + 1)) / real n)
        in fold (\<lambda>j q. q[i * n + j := T ! i - real j * incr]) [1..<n] p1)"

definition interp_value :: "real list \<Rightarrow> nat \<Rightarrow> nat \<Rightarrow> real" where
  "interp_value T n k =
     T ! (k div n) - real (k mod n) * ((T ! (k div n) - T ! ((k div n + 1) mod 12)) / real n)"

text \<open>
  For the rotation of a PCP: the correlation function of the mode that wins the cascade
  of KeyEDM, and the hypothesis that the best score of a mode exceeds the initial value
  \<open>-1\<close> and is reached at one shift only (every other score is smaller or not
  comparable).
\<close>

definition KeyEDM_winning_corr :: "real list \<Rightarrow> KeyEDM_state \<Rightarrow> int \<Rightarrow> Real" where
  "KeyEDM_winning_corr pcp st =
     (let st1 = KeyEDM_prepare (length pcp) st;
          corrMajor = pcp_corr pcp (edm_profile_doM st1) (edm_mean_profile_M st1)
                        (edm_std_profile_M st1);
          corrMinor = pcp_corr pcp (edm_profile_dom st1) (edm_mean_profile_m st1)
                        (edm_std_profile_m st1)
      in if fge (fst (scan corrMajor (length pcp))) (fst (scan corrMinor (length pcp)))
         then corrMajor else corrMinor)"

definition unique_best :: "(int \<Rightarrow> Real) \<Rightarrow> nat \<Rightarrow> bool" where
  "unique_best corr N =
     (\<exists>k<N. fgt (corr (int k)) (Fin (- 1)) \<and>
        (\<forall>s<N. s \<noteq> k \<longrightarrow> \<not> fge (corr (int s)) (corr (int k))))"

text \<open>
  \<open>pcp'\<close> is \<open>pcp\<close> rotated by one semitone's worth of bins:
  \<open>pcp'[i] = pcp[(i - N/12) mod N]\<close>.
\<close>

definition rotated :: "real list \<Rightarrow> real list \<Rightarrow> bool" where
  "rotated pcp pcp' =
     (length pcp' = length pcp \<and>
      (\<forall>i<length pcp.
          pcp' ! i = pcp ! nat ((int i - int (length pcp div 12)) mod int (length pcp))))"

text \<open>
  For the evaluation on concrete inputs: the numerator of the correlation, a score
  written as a numerator over a common denominator, and the scan of a list of scores.
\<close>

definition corr_num :: "real list \<Rightarrow> real \<Rightarrow> real list \<Rightarrow> real \<Rightarrow> int \<Rightarrow> real" where
  "corr_num v1 mean1 v2 mean2 shift =
     (\<Sum>i<length v1. (v1 ! i - mean1) * (v2 ! nat ((int i - shift) mod int (length v1)) - mean2))"

definition score :: "real \<Rightarrow> real \<Rightarrow> Real" where
  "score D a = Fin (a / D)"

definition scan_list :: "Real list \<Rightarrow> track" where
  "scan_list vs = fold (\<lambda>(shift, corr). update corr (int shift)) (enumerate 0 vs) track0"

text \<open>
  Concrete inputs: KeyEDM configured with the profile type temperley for 12 bins; the
  major template of temperley as a PCP (and the minor template); the same PCP rotated by
  one bin; a PCP that repeats after six bins, and its rotation by one bin.
\<close>

definition temperley12 :: KeyEDM_state where
  "temperley12 = KeyEDM_configured ''temperley'' 12"

definition pcp_major12 :: "real list" where
  "pcp_major12 = [5, 2, 3.5, 2, 4.5, 4, 2, 4.5, 2, 3.5, 1.5, 4]"

definition temperley_minor :: "real list" where
  "temperley_minor = [5, 2, 3.5, 4.5, 2, 4, 2, 4.5, 3.5, 2, 1.5, 4]"

definition pcp_major12_rot :: "real list" where
  "pcp_major12_rot = [4, 5, 2, 3.5, 2, 4.5, 4, 2, 4.5, 2, 3.5, 1.5]"

definition pcp_period6 :: "real list" where
  "pcp_period6 = [3, 4, 0, 1, 4, 3, 3, 4, 0, 1, 4, 3]"

definition pcp_period6_rot :: "real list" where
  "pcp_period6_rot = [3, 3, 4, 0, 1, 4, 3, 3, 4, 0, 1, 4]"

text \<open>
  KeyEDM configured with the profile type temperley for 24 bins, its two interpolated
  profiles, and the interpolated major profile rotated by one bin as a PCP.
\<close>

definition temperley24 :: KeyEDM_state where
  "temperley24 = KeyEDM_configured ''temperley'' 24"

definition temperley_major24 :: "real list" where
  "temperley_major24 =
     [5, 7 / 2, 2, 11 / 4, 7 / 2, 11 / 4, 2, 13 / 4, 9 / 2, 17 / 4, 4, 3,
      2, 13 / 4, 9 / 2, 13 / 4, 2, 11 / 4, 7 / 2, 5 / 2, 3 / 2, 11 / 4, 4, 9 / 2]"

definition temperley_minor24 :: "real list" where
  "temperley_minor24 =
     [5, 7 / 2, 2, 11 / 4, 7 / 2, 4, 9 / 2, 13 / 4, 2, 3, 4, 3,
      2, 13 / 4, 9 / 2, 4, 7 / 2, 11 / 4, 2, 7 / 4, 3 / 2, 11 / 4, 4, 9 / 2]"

definition pcp_major24_rot :: "real list" where
  "pcp_major24_rot =
     [9 / 2, 5, 7 / 2, 2, 11 / 4, 7 / 2, 11 / 4, 2, 13 / 4, 9 / 2, 17 / 4, 4,
      3, 2, 13 / 4, 9 / 2, 13 / 4, 2, 11 / 4, 7 / 2, 5 / 2, 3 / 2, 11 / 4, 4]"

text \<open>
  Key2 configured with the profile type bmtg2 for 12 bins and its three templates; the
  ratio \<open>rho\<close> of the deviations that \<open>resize\<close> stores for the major and the third
  profile; and the PCP \<open>pcp_tie[i] = M[i] + rho * O[i]\<close>, which lies at the same angle
  from both profiles.
\<close>

definition bmtg2_12 :: Key2_state where
  "bmtg2_12 = Key2_configured ''bmtg2'' 12"

definition bmtg2_major :: "real list" where
  "bmtg2_major = [1.00, 0.10, 0.42, 0.10, 0.53, 0.37, 0.10, 0.77, 0.10, 0.38, 0.21, 0.30]"

definition bmtg2_minor :: "real list" where
  "bmtg2_minor = [1.00, 0.10, 0.36, 0.39, 0.29, 0.38, 0.10, 0.74, 0.27, 0.10, 0.42, 0.23]"

definition bmtg2_other :: "real list" where
  "bmtg2_other = [1.00, 0.26, 0.35, 0.29, 0.44, 0.36, 0.21, 0.78, 0.26, 0.25, 0.32, 0.26]"

definition rho :: real where
  "rho = k2_std_profile_M bmtg2_12 / k2_std_profile_O bmtg2_12"

definition pcp_tie :: "real list" where
  "pcp_tie = map2 (\<lambda>a b. a + rho * b) bmtg2_major bmtg2_other"

text \<open>All scores of a mode are finite numbers.\<close>

definition is_finite :: "Real \<Rightarrow> bool" where
  "is_finite x = (case x of Fin u \<Rightarrow> True | _ \<Rightarrow> False)"

definition finite_scores :: "(int \<Rightarrow> Real) \<Rightarrow> nat \<Rightarrow> bool" where
  "finite_scores corr N = list_all (\<lambda>shift. is_finite (corr (int shift))) [0..<N]"

section \<open>Properties\<close>

subsection \<open>The key index\<close>

lemma c_int_cast_half: "c_int_cast (real_of_int q + 0.5) = (if 0 \<le> q then q else q + 1)"
  unfolding c_int_cast_def
  by (auto; linarith)

lemma sdiv_nonneg: "0 \<le> a \<Longrightarrow> 0 \<le> b \<Longrightarrow> (a::int) sdiv b = a div b"
  by (auto simp: signed_divide_int_def sgn_if)

lemma keyIndex_of_nonneg: "0 \<le> k \<Longrightarrow> keyIndex_of k N = k * 12 div int N"
  unfolding keyIndex_of_def c_int_cast_half
  by (simp add: sdiv_nonneg pos_imp_zdiv_nonneg_iff div_int_pos_iff)

lemma keyIndex_of_m1: "12 \<le> N \<Longrightarrow> keyIndex_of (- 1) N = 0"
proof -
  assume N: "12 \<le> N"
  have "(12::int) div int N = (if N = 12 then 1 else 0)"
    using N by (auto simp: div_pos_pos_trivial)
  then have "(- 1 * 12) sdiv int N = (if N = 12 then - 1 else 0)"
    using N by (auto simp: signed_divide_int_def sgn_if)
  then show ?thesis
    unfolding keyIndex_of_def c_int_cast_half by auto
qed

lemma int_div_less:
  assumes "0 < (n::int)" "x < c * n"
  shows "x div n < c"
proof -
  have "n * (x div n) + x mod n = x" by simp
  moreover have "0 \<le> x mod n" using assms(1) by simp
  ultimately have "n * (x div n) \<le> x" by linarith
  with assms(2) have "n * (x div n) < n * c" by (simp add: mult.commute)
  with assms(1) show ?thesis by (simp add: mult_less_cancel_left_pos)
qed

lemma keyIndex_of_range:
  assumes "12 \<le> N" "0 \<le> shift" "shift < int N"
  shows "0 \<le> keyIndex_of shift N \<and> keyIndex_of shift N \<le> 11"
proof -
  have pos: "0 < int N" using assms by simp
  have "shift * 12 < 12 * int N" using assms by simp
  with pos have "shift * 12 div int N < 12" by (rule int_div_less)
  moreover have "0 \<le> shift * 12 div int N"
    using assms pos by (simp add: div_int_pos_iff)
  ultimately show ?thesis using assms by (simp add: keyIndex_of_nonneg)
qed

text \<open>Every index the scan can leave, \<open>-1\<close> included, gives a key index from 0 to 11.\<close>

lemma keyIndex_of_scan_range:
  assumes "12 \<le> N" "- 1 \<le> k" "k < int N"
  shows "0 \<le> keyIndex_of k N \<and> keyIndex_of k N \<le> 11"
proof (cases "k = - 1")
  case True
  then show ?thesis using assms(1) by (simp add: keyIndex_of_m1)
next
  case False
  then have "0 \<le> k" using assms(2) by simp
  then show ?thesis using assms by (simp add: keyIndex_of_range)
qed

subsection \<open>The order of floating-point results\<close>

lemma fgt_irrefl [simp]: "\<not> fgt a a"
  by (cases a) auto

lemma fgt_NaN [simp]: "\<not> fgt a NaN" "\<not> fgt NaN a"
  by (cases a; simp)+

lemma fgt_trans: "fgt a b \<Longrightarrow> fgt b c \<Longrightarrow> fgt a c"
  by (cases a; cases b; cases c) auto

lemma fgt_asym: "fgt a b \<Longrightarrow> \<not> fgt b a"
  by (cases a; cases b) auto

lemma fgt_not_trans: "fgt a b \<Longrightarrow> \<not> fgt c b \<Longrightarrow> c \<noteq> NaN \<Longrightarrow> fgt a c"
  by (cases a; cases b; cases c) auto

lemma not_fgt_trans: "\<not> fgt c b \<Longrightarrow> fgt a b \<Longrightarrow> \<not> fgt c a"
  by (cases a; cases b; cases c) auto

lemma fgt_total: "a \<noteq> NaN \<Longrightarrow> b \<noteq> NaN \<Longrightarrow> fgt a b \<or> a = b \<or> fgt b a"
  by (cases a; cases b) auto

lemma fge_iff: "fge a b = (a \<noteq> NaN \<and> b \<noteq> NaN \<and> \<not> fgt b a)"
  unfolding fge_def by (cases a; cases b) auto

lemma fgt_not_NaN: "fgt a b \<Longrightarrow> a \<noteq> NaN \<and> b \<noteq> NaN"
  by (cases a; cases b) auto

subsection \<open>The scan of one mode\<close>

lemma scan_0 [simp]: "scan c 0 = track0"
  by (simp add: scan_def)

lemma scan_Suc: "scan c (Suc N) = update (c (int N)) (int N) (scan c N)"
  by (simp add: scan_def)

lemma Key2_scan_eq: "Key2_scan cM cm cO N = (scan cM N, scan cm N, scan cO N)"
  by (induction N) (simp_all add: Key2_scan_def scan_def)

lemma KeyEDM_scan_eq: "KeyEDM_scan cM cm N = (scan cM N, scan cm N)"
  by (induction N) (simp_all add: KeyEDM_scan_def scan_def)

text \<open>What the scan of one mode leaves in its three variables.\<close>

lemma scan_char:
  assumes "scan c N = (mx, mx2, idx)"
  shows "mx \<noteq> NaN \<and> \<not> fgt (Fin (- 1)) mx \<and> (\<forall>s<N. \<not> fgt (c (int s)) mx) \<and>
         (if idx = - 1 then mx = Fin (- 1) \<and> mx2 = Fin (- 1)
          else 0 \<le> idx \<and> idx < int N \<and> mx = c idx \<and> fgt mx (Fin (- 1)) \<and>
               (\<forall>s. int s < idx \<longrightarrow> \<not> fge (c (int s)) mx) \<and>
               mx2 = fst (scan c (nat idx)))"
  using assms
proof (induction N arbitrary: mx mx2 idx)
  case 0
  then show ?case by (auto simp: track0_def)
next
  case (Suc N)
  obtain a a2 i where prev: "scan c N = (a, a2, i)" by (cases "scan c N") 
  note IH = Suc.IH [OF prev]
  show ?case
  proof (cases "fgt (c (int N)) a")
    case True
    have "update (c (int N)) (int N) (a, a2, i) = (mx, mx2, idx)"
      using Suc.prems prev by (simp add: scan_Suc)
    with True have "(c (int N), a, int N) = (mx, mx2, idx)"
      unfolding update_def by auto
    then have eq: "mx = c (int N)" "mx2 = a" "idx = int N" by auto
    have nn: "c (int N) \<noteq> NaN" using True fgt_not_NaN by blast
    have "\<not> fgt (Fin (- 1)) (c (int N))"
      using True IH by (meson fgt_asym fgt_trans)
    moreover have "\<forall>s<Suc N. \<not> fgt (c (int s)) (c (int N))"
      using True IH by (metis fgt_irrefl less_Suc_eq not_fgt_trans)
    moreover have "fgt (c (int N)) (Fin (- 1))"
      using True IH nn by (metis Real.distinct(5) fgt_not_trans fgt_total fgt_trans)
    moreover have "\<forall>s. int s < int N \<longrightarrow> \<not> fge (c (int s)) (c (int N))"
      using True IH by (metis fge_iff fgt_not_trans nat_int of_nat_less_iff zless_nat_conj)
    ultimately show ?thesis using eq nn prev by simp
  next
    case False
    have "update (c (int N)) (int N) (a, a2, i) = (mx, mx2, idx)"
      using Suc.prems prev by (simp add: scan_Suc)
    with False have "(a, a2, i) = (mx, mx2, idx)"
      unfolding update_def by auto
    then have eq: "mx = a" "mx2 = a2" "idx = i" by auto
    have "\<forall>s<Suc N. \<not> fgt (c (int s)) a"
      using False IH by (auto simp: less_Suc_eq)
    then show ?thesis using IH eq by (auto split: if_splits)
  qed
qed

subsection \<open>From the scan to the outputs\<close>

lemma Key2_resize_keys [simp]: "k2_keys (Key2_resize n st) = k2_keys st"
  by (simp add: Key2_resize_def Let_def)

lemma KeyEDM_resize_keys [simp]: "edm_keys (KeyEDM_resize n st) = edm_keys st"
  by (simp add: KeyEDM_resize_def Let_def)

lemma Key2_prepare_keys [simp]: "k2_keys (Key2_prepare n st) = k2_keys st"
  by (simp add: Key2_prepare_def)

lemma KeyEDM_prepare_keys [simp]: "edm_keys (KeyEDM_prepare n st) = edm_keys st"
  by (simp add: KeyEDM_prepare_def)

lemma Key2_compute_eq:
  assumes "12 \<le> length pcp" "length pcp mod 12 = 0"
  shows "Key2_compute pcp st =
           (Key2_decide (k2_keys st) (Key2_tracks pcp st) (length pcp),
            Key2_prepare (length pcp) st)"
  using assms
  by (simp add: Key2_compute_def Key2_tracks_def Key2_scan_eq pcp_corr_def Let_def
        Key2_prepare_def)

lemma KeyEDM_compute_eq:
  assumes "12 \<le> length pcp" "length pcp mod 12 = 0"
  shows "KeyEDM_compute pcp st =
           (KeyEDM_decide (edm_keys st) (KeyEDM_tracks pcp st) (length pcp),
            KeyEDM_prepare (length pcp) st)"
  using assms
  by (simp add: KeyEDM_compute_def KeyEDM_tracks_def KeyEDM_scan_eq pcp_corr_def Let_def
        KeyEDM_prepare_def)

lemma scan_index_range:
  assumes "scan c N = (mx, mx2, idx)"
  shows "- 1 \<le> idx \<and> idx < int N"
  using scan_char [OF assms] by (auto split: if_splits)

lemma key_at_keyNames:
  assumes "0 \<le> i" "i \<le> 11"
  shows "key_at keyNames i = Inr (keyNames ! nat i)"
  using assms by (simp add: key_at_def keyNames_def)

lemma keyNames_nth_mem:
  assumes "0 \<le> i" "i \<le> 11"
  shows "keyNames ! nat i \<in> set keyNames"
proof -
  have "nat i < length keyNames" using assms by (simp add: keyNames_def)
  then show ?thesis by (rule nth_mem)
qed

lemma Key2_decide_spec:
  assumes N: "12 \<le> N"
    and kM: "- 1 \<le> kM" "kM < int N"
    and km: "- 1 \<le> km" "km < int N"
    and kO: "- 1 \<le> kO" "kO < int N"
  shows "Key2_decide keyNames ((M, M2, kM), (m, m2, km), (X, X2, kO)) N =
     (case spec_select3 M m X of
        None \<Rightarrow> Inl KeyNotFound
      | Some Major \<Rightarrow> Inr \<lparr>key = keyNames ! nat (keyIndex_of kM N), scale = ''major'',
            strength = M, firstToSecondRelativeStrength = relativeStrength M M2\<rparr>
      | Some Minor \<Rightarrow> Inr \<lparr>key = keyNames ! nat (keyIndex_of km N), scale = ''minor'',
            strength = m, firstToSecondRelativeStrength = relativeStrength m m2\<rparr>
      | Some Other \<Rightarrow> Inr \<lparr>key = keyNames ! nat (keyIndex_of kO N), scale = ''minor'',
            strength = X, firstToSecondRelativeStrength = relativeStrength X X2\<rparr>)"
proof -
  note r = keyIndex_of_scan_range [OF N kM] keyIndex_of_scan_range [OF N km]
    keyIndex_of_scan_range [OF N kO]
  show ?thesis
    using r
    by (simp add: Key2_decide_def Key2_select_def spec_select3_def key_at_keyNames
        Key2_scale_name_def)
qed

lemma KeyEDM_decide_spec:
  assumes N: "12 \<le> N"
    and kM: "- 1 \<le> kM" "kM < int N"
    and km: "- 1 \<le> km" "km < int N"
  shows "KeyEDM_decide keyNames ((M, M2, kM), (m, m2, km)) N =
     (case spec_select2 M m of
        Major \<Rightarrow> Inr \<lparr>key = keyNames ! nat (keyIndex_of kM N), scale = ''major'',
            strength = M, firstToSecondRelativeStrength = relativeStrength M M2\<rparr>
      | _ \<Rightarrow> Inr \<lparr>key = keyNames ! nat (keyIndex_of km N), scale = ''minor'',
            strength = m, firstToSecondRelativeStrength = relativeStrength m m2\<rparr>)"
proof -
  note r = keyIndex_of_scan_range [OF N kM] keyIndex_of_scan_range [OF N km]
  show ?thesis
    using r
    by (simp add: KeyEDM_decide_def KeyEDM_select_def spec_select2_def key_at_keyNames
        KeyEDM_scale_name_def)
qed

lemma Key2_tracks_index_range:
  assumes "Key2_tracks pcp st = ((M, M2, kM), (m, m2, km), (X, X2, kO))"
  shows "- 1 \<le> kM \<and> kM < int (length pcp) \<and> - 1 \<le> km \<and> km < int (length pcp) \<and>
         - 1 \<le> kO \<and> kO < int (length pcp)"
  using assms unfolding Key2_tracks_def Let_def
  by (auto dest!: scan_index_range)

lemma KeyEDM_tracks_index_range:
  assumes "KeyEDM_tracks pcp st = ((M, M2, kM), (m, m2, km))"
  shows "- 1 \<le> kM \<and> kM < int (length pcp) \<and> - 1 \<le> km \<and> km < int (length pcp)"
  using assms unfolding KeyEDM_tracks_def Let_def
  by (auto dest!: scan_index_range)

lemma Key2_compute_spec:
  assumes len: "12 \<le> length pcp" "length pcp mod 12 = 0" and keys: "k2_keys st = keyNames"
  shows "fst (Key2_compute pcp st) =
     (case Key2_tracks pcp st of ((M, M2, kM), (m, m2, km), (X, X2, kO)) \<Rightarrow>
        case spec_select3 M m X of
          None \<Rightarrow> Inl KeyNotFound
        | Some md \<Rightarrow>
            Inr \<lparr>key = keyNames !
                       nat (keyIndex_of (case md of Major \<Rightarrow> kM | Minor \<Rightarrow> km | Other \<Rightarrow> kO)
                              (length pcp)),
                 scale = spec_label md,
                 strength = (case md of Major \<Rightarrow> M | Minor \<Rightarrow> m | Other \<Rightarrow> X),
                 firstToSecondRelativeStrength =
                   (case md of Major \<Rightarrow> relativeStrength M M2
                    | Minor \<Rightarrow> relativeStrength m m2
                    | Other \<Rightarrow> relativeStrength X X2)\<rparr>)"
proof -
  obtain M M2 kM m m2 km X X2 kO
    where ts: "Key2_tracks pcp st = ((M, M2, kM), (m, m2, km), (X, X2, kO))"
    by (metis prod_cases3)
  note r = Key2_tracks_index_range [OF ts]
  have "Key2_decide keyNames ((M, M2, kM), (m, m2, km), (X, X2, kO)) (length pcp) =
     (case spec_select3 M m X of
        None \<Rightarrow> Inl KeyNotFound
      | Some Major \<Rightarrow> Inr \<lparr>key = keyNames ! nat (keyIndex_of kM (length pcp)), scale = ''major'',
            strength = M, firstToSecondRelativeStrength = relativeStrength M M2\<rparr>
      | Some Minor \<Rightarrow> Inr \<lparr>key = keyNames ! nat (keyIndex_of km (length pcp)), scale = ''minor'',
            strength = m, firstToSecondRelativeStrength = relativeStrength m m2\<rparr>
      | Some Other \<Rightarrow> Inr \<lparr>key = keyNames ! nat (keyIndex_of kO (length pcp)), scale = ''minor'',
            strength = X, firstToSecondRelativeStrength = relativeStrength X X2\<rparr>)"
    using r by (intro Key2_decide_spec [OF len(1)]) simp_all
  then show ?thesis
    by (simp add: Key2_compute_eq [OF len] keys ts split: option.splits mode.splits)
qed

lemma KeyEDM_compute_spec:
  assumes len: "12 \<le> length pcp" "length pcp mod 12 = 0" and keys: "edm_keys st = keyNames"
  shows "fst (KeyEDM_compute pcp st) =
     (case KeyEDM_tracks pcp st of ((M, M2, kM), (m, m2, km)) \<Rightarrow>
        if fge M m
        then Inr \<lparr>key = keyNames ! nat (keyIndex_of kM (length pcp)), scale = ''major'',
                  strength = M, firstToSecondRelativeStrength = relativeStrength M M2\<rparr>
        else Inr \<lparr>key = keyNames ! nat (keyIndex_of km (length pcp)), scale = ''minor'',
                  strength = m, firstToSecondRelativeStrength = relativeStrength m m2\<rparr>)"
proof -
  obtain M M2 kM m m2 km
    where ts: "KeyEDM_tracks pcp st = ((M, M2, kM), (m, m2, km))"
    by (metis prod_cases3)
  note r = KeyEDM_tracks_index_range [OF ts]
  have "KeyEDM_decide keyNames ((M, M2, kM), (m, m2, km)) (length pcp) =
     (case spec_select2 M m of
        Major \<Rightarrow> Inr \<lparr>key = keyNames ! nat (keyIndex_of kM (length pcp)), scale = ''major'',
            strength = M, firstToSecondRelativeStrength = relativeStrength M M2\<rparr>
      | _ \<Rightarrow> Inr \<lparr>key = keyNames ! nat (keyIndex_of km (length pcp)), scale = ''minor'',
            strength = m, firstToSecondRelativeStrength = relativeStrength m m2\<rparr>)"
    using r by (intro KeyEDM_decide_spec [OF len(1)]) simp_all
  then show ?thesis
    by (simp add: KeyEDM_compute_eq [OF len] keys ts spec_select2_def)
qed

lemma Key2_compute_invalid:
  assumes "length pcp < 12 \<or> length pcp mod 12 \<noteq> 0"
  shows "Key2_compute pcp st = (Inl InvalidProfileSize, st)"
  using assms by (auto simp: Key2_compute_def Let_def)

lemma KeyEDM_compute_invalid:
  assumes "length pcp < 12 \<or> length pcp mod 12 \<noteq> 0"
  shows "KeyEDM_compute pcp st = (Inl InvalidProfileSize, st)"
  using assms by (auto simp: KeyEDM_compute_def Let_def)

text \<open>KeyEDM never throws the exception of line 161.\<close>

lemma KeyEDM_compute_never_KeyNotFound: "fst (KeyEDM_compute pcp st) \<noteq> Inl KeyNotFound"
proof (cases "12 \<le> length pcp \<and> length pcp mod 12 = 0")
  case False
  then show ?thesis using KeyEDM_compute_invalid [of pcp st] by (auto simp: not_less)
next
  case True
  obtain M M2 kM m m2 km
    where ts: "KeyEDM_tracks pcp st = ((M, M2, kM), (m, m2, km))"
    by (metis prod_cases3)
  note r = KeyEDM_tracks_index_range [OF ts]
  have "0 \<le> keyIndex_of kM (length pcp)" "0 \<le> keyIndex_of km (length pcp)"
    using r True keyIndex_of_scan_range by simp_all
  then show ?thesis
    using True
    by (simp add: KeyEDM_compute_eq ts KeyEDM_decide_def KeyEDM_select_def key_at_def
        split: sum.splits)
qed

lemma spec_select3_None:
  assumes "M \<noteq> NaN" "m \<noteq> NaN" "X \<noteq> NaN"
  shows "(spec_select3 M m X = None) = (M = X \<and> fgt M m)"
  using assms unfolding spec_select3_def fge_iff
  by (cases M; cases m; cases X) auto

lemma Key2_tracks_not_NaN:
  assumes "Key2_tracks pcp st = ((M, M2, kM), (m, m2, km), (X, X2, kO))"
  shows "M \<noteq> NaN \<and> m \<noteq> NaN \<and> X \<noteq> NaN"
  using assms unfolding Key2_tracks_def Let_def
  by (auto dest!: scan_char)

text \<open>
  Key2 throws the exception of line 233 exactly when the best major score equals the best
  score of the third profile and both exceed the best minor score.
\<close>

lemma Key2_compute_KeyNotFound_iff:
  assumes len: "12 \<le> length pcp" "length pcp mod 12 = 0" and keys: "k2_keys st = keyNames"
  shows "(fst (Key2_compute pcp st) = Inl KeyNotFound) =
     (case Key2_tracks pcp st of ((M, M2, kM), (m, m2, km), (X, X2, kO)) \<Rightarrow> M = X \<and> fgt M m)"
proof -
  obtain M M2 kM m m2 km X X2 kO
    where ts: "Key2_tracks pcp st = ((M, M2, kM), (m, m2, km), (X, X2, kO))"
    by (metis prod_cases3)
  note nn = Key2_tracks_not_NaN [OF ts]
  show ?thesis
    using spec_select3_None [of M m X] nn
    by (cases "spec_select3 M m X") (auto simp: Key2_compute_spec [OF len keys] ts)
qed

lemma Key2_compute_key_in_keyNames:
  assumes res: "fst (Key2_compute pcp st) = Inr out" and keys: "k2_keys st = keyNames"
  shows "key out \<in> set keyNames"
proof -
  have len: "12 \<le> length pcp" "length pcp mod 12 = 0"
    using res Key2_compute_invalid [of pcp st] by (cases "length pcp < 12"; cases "length pcp mod 12 = 0"; simp)+
  obtain M M2 kM m m2 km X X2 kO
    where ts: "Key2_tracks pcp st = ((M, M2, kM), (m, m2, km), (X, X2, kO))"
    by (metis prod_cases3)
  note r = Key2_tracks_index_range [OF ts]
  have "keyNames ! nat (keyIndex_of k (length pcp)) \<in> set keyNames"
    if "- 1 \<le> k" "k < int (length pcp)" for k
    using keyIndex_of_scan_range [OF len(1) that] keyNames_nth_mem by simp
  then show ?thesis
    using res r
    by (auto simp: Key2_compute_spec [OF len keys] ts split: option.splits mode.splits)
qed

lemma KeyEDM_compute_key_in_keyNames:
  assumes res: "fst (KeyEDM_compute pcp st) = Inr out" and keys: "edm_keys st = keyNames"
  shows "key out \<in> set keyNames"
proof -
  have len: "12 \<le> length pcp" "length pcp mod 12 = 0"
    using res KeyEDM_compute_invalid [of pcp st] by (cases "length pcp < 12"; cases "length pcp mod 12 = 0"; simp)+
  obtain M M2 kM m m2 km
    where ts: "KeyEDM_tracks pcp st = ((M, M2, kM), (m, m2, km))"
    by (metis prod_cases3)
  note r = KeyEDM_tracks_index_range [OF ts]
  have "keyNames ! nat (keyIndex_of k (length pcp)) \<in> set keyNames"
    if "- 1 \<le> k" "k < int (length pcp)" for k
    using keyIndex_of_scan_range [OF len(1) that] keyNames_nth_mem by simp
  then show ?thesis
    using res r
    by (auto simp: KeyEDM_compute_spec [OF len keys] ts split: if_splits)
qed

lemma Key2_compute_in_bounds:
  assumes "k2_keys st = keyNames"
  shows "fst (Key2_compute pcp st) \<noteq> Inl IndexOutOfRange"
proof (cases "12 \<le> length pcp \<and> length pcp mod 12 = 0")
  case False
  then show ?thesis using Key2_compute_invalid [of pcp st] by (auto simp: not_less)
next
  case True
  then show ?thesis
    using Key2_compute_spec [of pcp st] assms
    by (auto split: prod.splits option.splits)
qed

lemma KeyEDM_compute_in_bounds:
  assumes "edm_keys st = keyNames"
  shows "fst (KeyEDM_compute pcp st) \<noteq> Inl IndexOutOfRange"
proof (cases "12 \<le> length pcp \<and> length pcp mod 12 = 0")
  case False
  then show ?thesis using KeyEDM_compute_invalid [of pcp st] by (auto simp: not_less)
next
  case True
  then show ?thesis
    using KeyEDM_compute_spec [of pcp st] assms
    by (auto split: prod.splits if_splits)
qed

lemma Key2_configured_keys:
  "p \<in> set Key2_declared_profileTypes \<Longrightarrow> k2_keys (Key2_configured p n) = keyNames"
  by (auto simp: Key2_configured_def Key2_configure_def Key2_declared_profileTypes_def
      Key2_SET_PROFILE_def)

lemma KeyEDM_configured_keys:
  "p \<in> {''temperley'', ''shaath'', ''edma'', ''edmm''} \<Longrightarrow>
   edm_keys (KeyEDM_configured p n) = keyNames"
  by (auto simp: KeyEDM_configured_def KeyEDM_configure_def KeyEDM_SET_PROFILE_def)

subsection \<open>Claims about the decision\<close>

text \<open>
  Claim C1.  For every PCP of valid length, the outputs of \<open>compute\<close> are those of the
  mode that the ordered cascade of the specification selects from the three maxima of the
  scan (Key2: major if it exceeds both others, else minor if it is at least both others,
  else the third mode if it exceeds both others) or from the two maxima (KeyEDM: major if
  it is at least minor, else minor); the label of the third mode is "minor"; when the
  cascade of Key2 selects nothing, \<open>compute\<close> throws.
\<close>

theorem mode_selection_cascade:
  assumes "12 \<le> length pcp" "length pcp mod 12 = 0"
    and "k2_keys st = keyNames" "edm_keys est = keyNames"
  shows "fst (Key2_compute pcp st) =
     (case Key2_tracks pcp st of ((maxMajor, max2Major, keyIndexMajor),
                                  (maxMinor, max2Minor, keyIndexMinor),
                                  (maxOther, max2Other, keyIndexOther)) \<Rightarrow>
        case spec_select3 maxMajor maxMinor maxOther of
          None \<Rightarrow> Inl KeyNotFound
        | Some md \<Rightarrow>
            Inr \<lparr>key = keyNames !
                       nat (keyIndex_of (case md of Major \<Rightarrow> keyIndexMajor
                              | Minor \<Rightarrow> keyIndexMinor | Other \<Rightarrow> keyIndexOther) (length pcp)),
                 scale = spec_label md,
                 strength = (case md of Major \<Rightarrow> maxMajor | Minor \<Rightarrow> maxMinor
                             | Other \<Rightarrow> maxOther),
                 firstToSecondRelativeStrength =
                   (case md of Major \<Rightarrow> relativeStrength maxMajor max2Major
                    | Minor \<Rightarrow> relativeStrength maxMinor max2Minor
                    | Other \<Rightarrow> relativeStrength maxOther max2Other)\<rparr>)
   \<and> fst (KeyEDM_compute pcp est) =
     (case KeyEDM_tracks pcp est of ((maxMaj, max2Maj, keyIndexMaj),
                                     (maxMin, max2Min, keyIndexMin)) \<Rightarrow>
        let md = spec_select2 maxMaj maxMin in
        Inr \<lparr>key = keyNames !
                   nat (keyIndex_of (if md = Major then keyIndexMaj else keyIndexMin) (length pcp)),
             scale = spec_label md,
             strength = (if md = Major then maxMaj else maxMin),
             firstToSecondRelativeStrength =
               (if md = Major then relativeStrength maxMaj max2Maj
                else relativeStrength maxMin max2Min)\<rparr>)"
proof -
  have "fst (KeyEDM_compute pcp est) =
     (case KeyEDM_tracks pcp est of ((maxMaj, max2Maj, keyIndexMaj),
                                     (maxMin, max2Min, keyIndexMin)) \<Rightarrow>
        let md = spec_select2 maxMaj maxMin in
        Inr \<lparr>key = keyNames !
                   nat (keyIndex_of (if md = Major then keyIndexMaj else keyIndexMin) (length pcp)),
             scale = spec_label md,
             strength = (if md = Major then maxMaj else maxMin),
             firstToSecondRelativeStrength =
               (if md = Major then relativeStrength maxMaj max2Maj
                else relativeStrength maxMin max2Min)\<rparr>)"
    using KeyEDM_compute_spec [OF assms(1,2,4)]
    by (auto simp: spec_select2_def Let_def split: prod.splits)
  then show ?thesis
    using Key2_compute_spec [OF assms(1,2,3)] by simp
qed

theorem mode_selection_cascade_witness:
  "12 \<le> length pcp_unit12 \<and> length pcp_unit12 mod 12 = 0 \<and>
   k2_keys (Key2_configured ''bmtg2'' 36) = keyNames \<and>
   edm_keys (KeyEDM_configured ''edma'' 36) = keyNames \<and>
   fst (Key2_compute pcp_unit12 (Key2_configured ''bmtg2'' 36)) =
     (case Key2_tracks pcp_unit12 (Key2_configured ''bmtg2'' 36) of
        ((maxMajor, max2Major, keyIndexMajor),
         (maxMinor, max2Minor, keyIndexMinor),
         (maxOther, max2Other, keyIndexOther)) \<Rightarrow>
        case spec_select3 maxMajor maxMinor maxOther of
          None \<Rightarrow> Inl KeyNotFound
        | Some md \<Rightarrow>
            Inr \<lparr>key = keyNames !
                       nat (keyIndex_of (case md of Major \<Rightarrow> keyIndexMajor
                              | Minor \<Rightarrow> keyIndexMinor | Other \<Rightarrow> keyIndexOther) 12),
                 scale = spec_label md,
                 strength = (case md of Major \<Rightarrow> maxMajor | Minor \<Rightarrow> maxMinor
                             | Other \<Rightarrow> maxOther),
                 firstToSecondRelativeStrength =
                   (case md of Major \<Rightarrow> relativeStrength maxMajor max2Major
                    | Minor \<Rightarrow> relativeStrength maxMinor max2Minor
                    | Other \<Rightarrow> relativeStrength maxOther max2Other)\<rparr>)"
proof -
  have len: "12 \<le> length pcp_unit12" "length pcp_unit12 mod 12 = 0"
    by (simp_all add: pcp_unit12_def)
  have k2: "k2_keys (Key2_configured ''bmtg2'' 36) = keyNames"
    by (rule Key2_configured_keys) (simp add: Key2_declared_profileTypes_def)
  have edm: "edm_keys (KeyEDM_configured ''edma'' 36) = keyNames"
    by (rule KeyEDM_configured_keys) simp
  have l12: "length pcp_unit12 = 12" by (simp add: pcp_unit12_def)
  show ?thesis
    using mode_selection_cascade [OF len k2 edm] len k2 edm
    by (simp only: l12 simp_thms)
qed

text \<open>
  Claim C5.  \<open>compute\<close> throws the exception for the size of the PCP if and only if the
  length of the PCP is less than 12 or not a multiple of 12, in Key2 and in KeyEDM.
\<close>

theorem compute_size_check:
  "((fst (Key2_compute pcp st) = Inl InvalidProfileSize) =
      (length pcp < 12 \<or> length pcp mod 12 \<noteq> 0)) \<and>
   ((fst (KeyEDM_compute pcp est) = Inl InvalidProfileSize) =
      (length pcp < 12 \<or> length pcp mod 12 \<noteq> 0))"
proof -
  have "fst (Key2_compute pcp st) \<noteq> Inl InvalidProfileSize"
    if "12 \<le> length pcp" "length pcp mod 12 = 0"
    using that
    by (simp add: Key2_compute_eq Key2_decide_def key_at_def split: prod.splits sum.splits)
  moreover have "fst (KeyEDM_compute pcp est) \<noteq> Inl InvalidProfileSize"
    if "12 \<le> length pcp" "length pcp mod 12 = 0"
    using that
    by (simp add: KeyEDM_compute_eq KeyEDM_decide_def key_at_def split: prod.splits sum.splits)
  ultimately show ?thesis
    using Key2_compute_invalid [of pcp st] KeyEDM_compute_invalid [of pcp est]
    by (cases "length pcp < 12"; cases "length pcp mod 12 = 0") auto
qed

theorem compute_size_check_witness:
  "fst (Key2_compute (replicate 11 0) Key2_new) = Inl InvalidProfileSize \<and>
   fst (KeyEDM_compute (replicate 11 0) KeyEDM_new) = Inl InvalidProfileSize \<and>
   fst (Key2_compute (replicate 13 0) Key2_new) = Inl InvalidProfileSize \<and>
   fst (KeyEDM_compute (replicate 13 0) KeyEDM_new) = Inl InvalidProfileSize \<and>
   fst (Key2_compute (replicate 12 0) Key2_new) \<noteq> Inl InvalidProfileSize \<and>
   fst (KeyEDM_compute (replicate 12 0) KeyEDM_new) \<noteq> Inl InvalidProfileSize"
  using compute_size_check [of "replicate 11 0" Key2_new KeyEDM_new]
    compute_size_check [of "replicate 13 0" Key2_new KeyEDM_new]
    compute_size_check [of "replicate 12 0" Key2_new KeyEDM_new]
  by simp

text \<open>
  Claim C10.  For every valid length \<open>N\<close> of the PCP and every shift from 0 to \<open>N - 1\<close>,
  the key index that the code computes is the integer quotient of \<open>12 * shift\<close> by \<open>N\<close>
  and lies between 0 and 11, so the lookup in the vector of the 12 key names is in bounds;
  \<open>compute\<close> on a configured object never reads outside this vector, and every key it
  returns is one of the 12 names.
\<close>

theorem keyIndex_in_bounds:
  assumes "12 \<le> N" "N mod 12 = 0" "0 \<le> shift" "shift < int N"
    and "k2_keys st = keyNames" "edm_keys est = keyNames"
  shows "0 \<le> keyIndex_of shift N \<and> keyIndex_of shift N \<le> 11 \<and>
         keyIndex_of shift N = shift * 12 div int N \<and>
         key_at keyNames (keyIndex_of shift N) = Inr (keyNames ! nat (keyIndex_of shift N)) \<and>
         keyNames ! nat (keyIndex_of shift N) \<in> set keyNames \<and>
         fst (Key2_compute pcp st) \<noteq> Inl IndexOutOfRange \<and>
         fst (KeyEDM_compute pcp est) \<noteq> Inl IndexOutOfRange \<and>
         (\<forall>out. fst (Key2_compute pcp st) = Inr out \<longrightarrow> key out \<in> set keyNames) \<and>
         (\<forall>out. fst (KeyEDM_compute pcp est) = Inr out \<longrightarrow> key out \<in> set keyNames)"
proof -
  note r = keyIndex_of_range [OF assms(1,3,4)]
  have "key_at keyNames (keyIndex_of shift N) = Inr (keyNames ! nat (keyIndex_of shift N))"
    using r by (simp add: key_at_keyNames)
  moreover have "keyNames ! nat (keyIndex_of shift N) \<in> set keyNames"
    using r by (simp add: keyNames_nth_mem)
  moreover have "keyIndex_of shift N = shift * 12 div int N"
    using assms(3) by (rule keyIndex_of_nonneg)
  ultimately show ?thesis
    using r Key2_compute_in_bounds [OF assms(5)] KeyEDM_compute_in_bounds [OF assms(6)]
      Key2_compute_key_in_keyNames [OF _ assms(5)] KeyEDM_compute_key_in_keyNames [OF _ assms(6)]
    by blast
qed

theorem keyIndex_in_bounds_witness:
  "keyIndex_of 35 36 = 11 \<and>
   key_at keyNames (keyIndex_of 35 36) = Inr ''Ab'' \<and>
   fst (Key2_compute pcp_unit12 (Key2_configured ''bmtg2'' 36)) \<noteq> Inl IndexOutOfRange \<and>
   fst (KeyEDM_compute pcp_unit12 (KeyEDM_configured ''edma'' 36)) \<noteq> Inl IndexOutOfRange"
proof -
  have k2: "k2_keys (Key2_configured ''bmtg2'' 36) = keyNames"
    by (rule Key2_configured_keys) (simp add: Key2_declared_profileTypes_def)
  have edm: "edm_keys (KeyEDM_configured ''edma'' 36) = keyNames"
    by (rule KeyEDM_configured_keys) simp
  have p: "12 \<le> (36::nat)" "(36::nat) mod 12 = 0" "0 \<le> (35::int)" "(35::int) < int 36"
    by simp_all
  note t = keyIndex_in_bounds [OF p k2 edm, of pcp_unit12]
  from t have "keyIndex_of 35 36 = 35 * 12 div int 36" by blast
  then have a: "keyIndex_of 35 36 = 11" by simp
  from t have b: "fst (Key2_compute pcp_unit12 (Key2_configured ''bmtg2'' 36)) \<noteq> Inl IndexOutOfRange"
    "fst (KeyEDM_compute pcp_unit12 (KeyEDM_configured ''edma'' 36)) \<noteq> Inl IndexOutOfRange"
    by blast+
  have c: "key_at keyNames 11 = Inr ''Ab''"
    by (simp add: key_at_def keyNames_def)
  show ?thesis using a b c by simp
qed

subsection \<open>Claims about \<open>configure\<close>\<close>

lemma Key2_configure_ok:
  "(\<exists>st'. Key2_configure p n st = Inr st') = (p \<in> set Key2_declared_profileTypes)"
  by (auto simp add: Key2_configure_def Key2_declared_profileTypes_def Let_def)

lemma Key2_configure_fail:
  "(Key2_configure p n st = Inl UnsupportedProfileType) = (p \<notin> set Key2_declared_profileTypes)"
  by (auto simp add: Key2_configure_def Key2_declared_profileTypes_def Let_def)

lemma KeyEDM_configure_ok:
  "(\<exists>st'. KeyEDM_configure p n st = Inr st') =
   (p \<in> {''temperley'', ''shaath'', ''edma'', ''edmm''})"
  by (auto simp add: KeyEDM_configure_def Let_def)

text \<open>
  Claim C9 (not met by KeyEDM).  The claim is that \<open>configure\<close> succeeds exactly on the set
  of identifiers declared for the parameter.  For Key2 it does (lemmas
  \<open>Key2_configure_ok\<close> and \<open>Key2_configure_fail\<close>).  \<^verbatim>\<open>KeyEDM::configure\<close> accepts
  temperley, shaath, edma and edmm (lemma \<open>KeyEDM_configure_ok\<close>), while keyEDM.h declares
  edma, edmm, bmtg1, bmtg2 and bmtg3: the declared identifier bmtg1 is rejected.
\<close>

theorem KeyEDM_configure_rejects_declared_type:
  "''bmtg1'' \<in> set KeyEDM_declared_profileTypes \<and>
   KeyEDM_configure ''bmtg1'' 36 KeyEDM_new = Inl UnsupportedProfileType \<and>
   ''temperley'' \<notin> set KeyEDM_declared_profileTypes \<and>
   KeyEDM_configure ''temperley'' 36 KeyEDM_new \<noteq> Inl UnsupportedProfileType"
  by (simp add: KeyEDM_configure_def KeyEDM_declared_profileTypes_def)

subsection \<open>The correlation\<close>

lemma fold_add_upt:
  "fold (\<lambda>i r. r + f i) [0..<n] (a::real) = a + (\<Sum>i<n. f i)"
  by (induction n arbitrary: a) simp_all

text \<open>The remainder of C, made non-negative by adding the size, is the remainder of HOL.\<close>

lemma c_index_mod:
  assumes "0 < sz"
  shows "(let index = (k::int) smod sz in if index < 0 then index + sz else index) = k mod sz"
proof -
  have m: "k mod sz = k smod sz + sz * of_bool (sgn k \<noteq> sgn sz \<and> \<not> sz dvd k)"
    by (rule modulo_int_eq_signed_modulo_int)
  have r: "0 \<le> k mod sz" "k mod sz < sz" using assms by simp_all
  show ?thesis
  proof (cases "sgn k \<noteq> sgn sz \<and> \<not> sz dvd k")
    case True
    then have "k smod sz = k mod sz - sz" using m by simp
    then show ?thesis using r by (simp add: Let_def)
  next
    case False
    then have "k smod sz = k mod sz" using m by auto
    then show ?thesis using r by (simp add: Let_def)
  qed
qed

lemma sum_sq_dev_eq: "sum_sq_dev v mu n = (\<Sum>i<n. (v ! i - mu)\<^sup>2)"
  by (simp add: sum_sq_dev_def fold_add_upt power2_eq_square)

lemma mean_eq: "mean v = (\<Sum>i<length v. v ! i) / real (length v)"
  by (simp add: mean_def sum_list_sum_nth atLeast0LessThan)

lemma correlation_eq:
  "correlation v1 mean1 std1 v2 mean2 std2 shift =
     fdiv (Fin (\<Sum>i<length v1. (v1 ! i - mean1) *
                   (v2 ! nat ((int i - shift) mod int (length v1)) - mean2)))
          (Fin (std1 * std2))"
proof -
  have "(let index = (int i - shift) smod int (length v1);
             index = (if index < 0 then index + int (length v1) else index)
         in r + (v1 ! i - mean1) * (v2 ! nat index - mean2)) =
        r + (v1 ! i - mean1) * (v2 ! nat ((int i - shift) mod int (length v1)) - mean2)"
    if "i < length v1" for i and r :: real
  proof -
    have "0 < int (length v1)" using that by (cases v1) simp_all
    from c_index_mod [OF this, of "int i - shift"] show ?thesis
      by (simp add: Let_def)
  qed
  then have "fold (\<lambda>i r.
                 let index = (int i - shift) smod int (length v1);
                     index = (if index < 0 then index + int (length v1) else index)
                 in r + (v1 ! i - mean1) * (v2 ! nat index - mean2))
                [0..<length v1] 0 =
             fold (\<lambda>i r. r + (v1 ! i - mean1) *
                   (v2 ! nat ((int i - shift) mod int (length v1)) - mean2)) [0..<length v1] 0"
    by (intro fold_cong) auto
  then show ?thesis
    by (simp add: correlation_def Let_def fold_add_upt)
qed




subsection \<open>The interpolation\<close>

lemma fold_update_length [simp]:
  "length (fold (\<lambda>j q. q[a + j := f j]) js p) = length p"
  by (induction js arbitrary: p) simp_all

lemma fold_update_nth:
  assumes "k < length p"
  shows "fold (\<lambda>j q. q[a + j := f j]) [lo..<hi] p ! k =
           (if a + lo \<le> k \<and> k < a + hi then f (k - a) else p ! k)"
proof (induction hi)
  case 0
  then show ?case by auto
next
  case (Suc hi)
  show ?case
  proof (cases "lo \<le> hi")
    case True
    show ?thesis
    proof (cases "k = a + hi")
      case True
      then show ?thesis
        using \<open>lo \<le> hi\<close> assms by simp
    next
      case False
      then show ?thesis
        using \<open>lo \<le> hi\<close> Suc by auto
    qed
  next
    case False
    then show ?thesis by auto
  qed
qed

lemma interp_step_length [simp]: "length (interp_step T n i p) = length p"
  by (simp add: interp_step_def Let_def)

lemma interp_step_nth:
  assumes "k < length p" "0 < n" "i < 12"
  shows "interp_step T n i p ! k = (if k div n = i then interp_value T n k else p ! k)"
proof -
  have incr: "(if i = 11 then (T ! 11 - T ! 0) / real n else (T ! i - T ! (i + 1)) / real n)
        = (T ! i - T ! ((i + 1) mod 12)) / real n"
    using assms(3) by auto
  have d: "(k div n = i) = (i * n \<le> k \<and> k < i * n + n)"
  proof
    assume "k div n = i"
    then show "i * n \<le> k \<and> k < i * n + n"
      using assms(2) dividend_less_div_times [of n k] by (auto simp: mult.commute)
  next
    assume "i * n \<le> k \<and> k < i * n + n"
    then show "k div n = i"
      by (intro div_nat_eqI) (simp_all add: mult.commute)
  qed
  have m: "k mod n = k - i * n" if "k div n = i"
    using that by (metis minus_mult_div_eq_mod mult.commute)
  show ?thesis
  proof (cases "k div n = i")
    case True
    then have r: "i * n \<le> k" "k < i * n + n" using d by simp_all
    show ?thesis
    proof (cases "k = i * n")
      case True
      then show ?thesis
        using assms r \<open>k div n = i\<close>
        by (simp add: interp_step_def Let_def fold_update_nth interp_value_def)
    next
      case False
      then have "i * n + 1 \<le> k" using r by simp
      then show ?thesis
        using assms r \<open>k div n = i\<close> m [OF \<open>k div n = i\<close>] incr
        by (simp add: interp_step_def Let_def fold_update_nth interp_value_def)
    qed
  next
    case False
    then have "\<not> (i * n + 1 \<le> k \<and> k < i * n + n)" "k \<noteq> i * n" using d assms(2) by auto
    then show ?thesis
      using assms False
      by (auto simp add: interp_step_def Let_def fold_update_nth)
  qed
qed


lemma interpolate_eq: "interpolate T n prof = fold (interp_step T n) [0..<12] prof"
  by (simp add: interpolate_def interp_step_def [abs_def] Let_def)

lemma fold_interp_step_length [simp]: "length (fold (interp_step T n) js p) = length p"
  by (induction js arbitrary: p) simp_all

lemma fold_interp_step_nth:
  assumes "k < length p" "0 < n" "m \<le> 12"
  shows "fold (interp_step T n) [0..<m] p ! k = (if k div n < m then interp_value T n k else p ! k)"
  using assms(3)
proof (induction m)
  case 0
  then show ?case by simp
next
  case (Suc m)
  then have IH: "fold (interp_step T n) [0..<m] p ! k =
      (if k div n < m then interp_value T n k else p ! k)" by simp
  have "m < 12" using Suc.prems by simp
  then show ?case
    using assms(1,2) IH by (auto simp: interp_step_nth less_Suc_eq)
qed

lemma interpolate_nth:
  assumes "k < length prof" "0 < n" "length prof = 12 * n"
  shows "interpolate T n prof ! k = interp_value T n k"
proof -
  have "k div n < 12" using assms by (simp add: less_mult_imp_div_less mult.commute)
  then show ?thesis
    using fold_interp_step_nth [OF assms(1,2), of 12 T] by (simp add: interpolate_eq)
qed

lemma interpolate_length [simp]: "length (interpolate T n prof) = length prof"
  by (simp add: interpolate_eq)

lemma vector_resize_length [simp]: "length (vector_resize n v) = n"
  by (simp add: vector_resize_def)

lemma interp_value_anchor:
  assumes "0 < n" "j < n"
  shows "interp_value T n (i * n + j) =
           T ! i - real j * ((T ! i - T ! ((i + 1) mod 12)) / real n)"
  using assms by (simp add: interp_value_def)

lemma resized_profile_spec:
  fixes T old :: "real list" and n :: nat
  assumes "0 < n"
  defines "P \<equiv> interpolate T n (vector_resize (12 * n) old)"
  shows "spec_interpolated T n P (mean P) (sqrt (sum_sq_dev P (mean P) (12 * n)))"
proof -
  have len: "length P = 12 * n" by (simp add: P_def)
  have nth: "P ! k = interp_value T n k" if "k < 12 * n" for k
    unfolding P_def using that assms(1) by (intro interpolate_nth) simp_all
  have a: "P ! (i * n) = T ! i" if "i < 12" for i
  proof -
    have "i * n + 0 < 12 * n" using that assms(1) by simp
    then show ?thesis
      using nth [of "i * n"] interp_value_anchor [OF assms(1) assms(1), of T i] by simp
  qed
  have b: "P ! (i * n + j) = T ! i - real j * ((T ! i - T ! ((i + 1) mod 12)) / real n)"
    if "i < 12" "j < n" for i j
  proof -
    have "i * n + j < i * n + n" using that by simp
    also have "\<dots> = Suc i * n" by simp
    also have "\<dots> \<le> 12 * n" using that(1) by (intro mult_le_mono1) simp
    finally show ?thesis
      using nth interp_value_anchor [OF assms(1) that(2)] by simp
  qed
  show ?thesis
    unfolding spec_interpolated_def
    using len a b by (simp add: mean_eq sum_sq_dev_eq)
qed

text \<open>
  Claim C7.  For templates of 12 values and every positive \<open>n\<close>, \<open>resize\<close> to
  \<open>12 * n\<close> leaves in each profile vector the interpolated profile of its template as the
  specification describes it (\<open>spec_interpolated\<close>): the template values at the anchors
  \<open>i * n\<close>, the value \<open>T[i] - j * increment\<close> at \<open>i * n + j\<close> with the increment
  \<open>(T[i] - T[(i + 1) mod 12]) / n\<close>, and as cached mean and deviation the arithmetic
  mean of the \<open>12 * n\<close> values and the root of the sum of their squared deviations.
\<close>

theorem resize_interpolates:
  assumes "0 < n"
    and "length (k2_M st) = 12" "length (k2_m st) = 12" "length (k2_O st) = 12"
    and "length (edm_M est) = 12" "length (edm_m est) = 12"
  shows "(let st' = Key2_resize (12 * n) st in
            spec_interpolated (k2_M st) n (k2_profile_doM st')
              (k2_mean_profile_M st') (k2_std_profile_M st') \<and>
            spec_interpolated (k2_m st) n (k2_profile_dom st')
              (k2_mean_profile_m st') (k2_std_profile_m st') \<and>
            spec_interpolated (k2_O st) n (k2_profile_doO st')
              (k2_mean_profile_O st') (k2_std_profile_O st')) \<and>
         (let est' = KeyEDM_resize (12 * n) est in
            spec_interpolated (edm_M est) n (edm_profile_doM est')
              (edm_mean_profile_M est') (edm_std_profile_M est') \<and>
            spec_interpolated (edm_m est) n (edm_profile_dom est')
              (edm_mean_profile_m est') (edm_std_profile_m est'))"
  using assms(1)
  by (simp add: Key2_resize_def KeyEDM_resize_def Let_def resized_profile_spec)

theorem resize_interpolates_witness:
  "k2_profile_doM (Key2_resize 24 (Key2_SET_PROFILE 1 Key2_new)) ! 0 = 1 \<and>
   k2_profile_doM (Key2_resize 24 (Key2_SET_PROFILE 1 Key2_new)) ! 1 = 0.55 \<and>
   length (k2_profile_doM (Key2_resize 24 (Key2_SET_PROFILE 1 Key2_new))) = 24"
proof -
  let ?st = "Key2_SET_PROFILE 1 Key2_new"
  let ?est = "KeyEDM_SET_PROFILE 0 KeyEDM_new"
  have l: "length (k2_M ?st) = 12" "length (k2_m ?st) = 12" "length (k2_O ?st) = 12"
    "length (edm_M ?est) = 12" "length (edm_m ?est) = 12"
    by (simp_all add: Key2_SET_PROFILE_def Key2_profileTypes_def KeyEDM_SET_PROFILE_def
        KeyEDM_profileTypes_def)
  have "spec_interpolated (k2_M ?st) 2 (k2_profile_doM (Key2_resize (12 * 2) ?st))
          (k2_mean_profile_M (Key2_resize (12 * 2) ?st))
          (k2_std_profile_M (Key2_resize (12 * 2) ?st))"
    using resize_interpolates [of 2 ?st ?est, OF _ l] by (simp add: Let_def)
  then have len: "length (k2_profile_doM (Key2_resize 24 ?st)) = 24"
    and all: "\<forall>i<12. k2_profile_doM (Key2_resize 24 ?st) ! (i * 2) = k2_M ?st ! i \<and>
         (\<forall>j\<in>{1..<2}. k2_profile_doM (Key2_resize 24 ?st) ! (i * 2 + j) =
             k2_M ?st ! i - real j * ((k2_M ?st ! i - k2_M ?st ! ((i + 1) mod 12)) / real 2))"
    by (simp_all add: spec_interpolated_def)
  have z: "0 < (12::nat)" by simp
  note c = all [rule_format, OF z]
  have "(1::nat) \<in> {1..<2}" by simp
  note d = c [THEN conjunct2, rule_format, OF this]
  have "k2_profile_doM (Key2_resize 24 ?st) ! 0 = k2_M ?st ! 0"
    using c by simp
  moreover have "k2_profile_doM (Key2_resize 24 ?st) ! 1 =
             k2_M ?st ! 0 - ((k2_M ?st ! 0 - k2_M ?st ! 1) / 2)"
    using d by simp
  moreover have "k2_M ?st ! 0 = 1" "k2_M ?st ! 1 = 0.1"
    by (simp_all add: Key2_SET_PROFILE_def Key2_profileTypes_def)
  ultimately show ?thesis using len by simp
qed

subsection \<open>Rotation of the PCP\<close>

lemma sum_rotate_index:
  fixes f :: "nat \<Rightarrow> real"
  assumes "0 < N"
  shows "(\<Sum>i<N. f (nat ((int i - c) mod int N))) = (\<Sum>j<N. f j)"
proof (rule sum.reindex_bij_witness [where i = "\<lambda>j. nat ((int j + c) mod int N)"
      and j = "\<lambda>i. nat ((int i - c) mod int N)"])
  have pos: "0 < int N" using assms by simp
  fix a assume "a \<in> {..<N}"
  then have a: "a < N" by simp
  have nonneg: "0 \<le> (int a - c) mod int N" using pos by simp
  have "(((int a - c) mod int N) + c) mod int N = (int a - c + c) mod int N"
    by (simp add: mod_add_left_eq)
  also have "\<dots> = int a" using a by simp
  finally show "nat ((int (nat ((int a - c) mod int N)) + c) mod int N) = a"
    using nonneg by simp
  have "(int a - c) mod int N < int N" using pos by (rule pos_mod_bound)
  then show "nat ((int a - c) mod int N) \<in> {..<N}" using nonneg by simp
  show "f (nat ((int a - c) mod int N)) = f (nat ((int a - c) mod int N))" ..
next
  have pos: "0 < int N" using assms by simp
  fix b assume "b \<in> {..<N}"
  then have b: "b < N" by simp
  have nonneg: "0 \<le> (int b + c) mod int N" using pos by simp
  have "(((int b + c) mod int N) - c) mod int N = (int b + c - c) mod int N"
    by (simp add: mod_diff_left_eq)
  also have "\<dots> = int b" using b by simp
  finally show "nat ((int (nat ((int b + c) mod int N)) - c) mod int N) = b"
    using nonneg by simp
  have "(int b + c) mod int N < int N" using pos by (rule pos_mod_bound)
  then show "nat ((int b + c) mod int N) \<in> {..<N}" using nonneg by simp
qed

lemma rotated_sum:
  fixes g :: "real \<Rightarrow> real"
  assumes "rotated pcp pcp'"
  shows "(\<Sum>i<length pcp. g (pcp' ! i)) = (\<Sum>i<length pcp. g (pcp ! i))"
proof (cases "length pcp = 0")
  case True
  then show ?thesis by simp
next
  case False
  then have pos: "0 < length pcp" by simp
  have "(\<Sum>i<length pcp. g (pcp' ! i)) =
        (\<Sum>i<length pcp. g (pcp ! nat ((int i - int (length pcp div 12)) mod int (length pcp))))"
    using assms by (intro sum.cong) (simp_all add: rotated_def)
  also have "\<dots> = (\<Sum>i<length pcp. g (pcp ! i))"
    by (rule sum_rotate_index [OF pos, of "\<lambda>j. g (pcp ! j)"])
  finally show ?thesis .
qed

lemma rotated_mean:
  assumes "rotated pcp pcp'"
  shows "mean pcp' = mean pcp"
  using rotated_sum [OF assms, of "\<lambda>x. x"] assms
  by (simp add: mean_eq rotated_def)

lemma rotated_sum_sq_dev:
  assumes "rotated pcp pcp'"
  shows "sum_sq_dev pcp' mu (length pcp) = sum_sq_dev pcp mu (length pcp)"
  using rotated_sum [OF assms, of "\<lambda>x. (x - mu)\<^sup>2"]
  by (simp add: sum_sq_dev_eq)

text \<open>
  The score of the rotated PCP at a shift is the score of the PCP at the shift one
  semitone lower.
\<close>

lemma pcp_corr_rotated:
  assumes rot: "rotated pcp pcp'"
  shows "pcp_corr pcp' prof pm ps shift =
         pcp_corr pcp prof pm ps ((shift - int (length pcp div 12)) mod int (length pcp))"
proof (cases "length pcp = 0")
  case True
  then show ?thesis using rot by (simp add: rotated_def pcp_corr_def correlation_eq)
next
  case False
  then have pos: "0 < length pcp" by simp
  let ?N = "length pcp" and ?n = "int (length pcp div 12)"
  let ?g = "\<lambda>j. (pcp ! j - mean pcp) *
               (prof ! nat ((int j - (shift - ?n) mod int ?N) mod int ?N) - pm)"
  have len: "length pcp' = ?N" using rot by (simp add: rotated_def)
  have "(\<Sum>i<?N. (pcp' ! i - mean pcp) * (prof ! nat ((int i - shift) mod int ?N) - pm)) =
        (\<Sum>i<?N. ?g (nat ((int i - ?n) mod int ?N)))"
  proof (intro sum.cong refl)
    fix i assume "i \<in> {..<?N}"
    then have i: "i < ?N" by simp
    have nonneg: "0 \<le> (int i - ?n) mod int ?N" using pos by simp
    have "((int i - ?n) mod int ?N - (shift - ?n) mod int ?N) mod int ?N =
          ((int i - ?n) - (shift - ?n)) mod int ?N"
      by (simp add: mod_diff_eq)
    also have "\<dots> = (int i - shift) mod int ?N" by simp
    finally have "(int (nat ((int i - ?n) mod int ?N)) - (shift - ?n) mod int ?N) mod int ?N
                  = (int i - shift) mod int ?N"
      using nonneg by simp
    moreover have "pcp' ! i = pcp ! nat ((int i - ?n) mod int ?N)"
      using rot i by (simp add: rotated_def)
    ultimately show "(pcp' ! i - mean pcp) * (prof ! nat ((int i - shift) mod int ?N) - pm) =
          ?g (nat ((int i - ?n) mod int ?N))"
      by simp
  qed
  also have "\<dots> = (\<Sum>j<?N. ?g j)"
    by (rule sum_rotate_index [OF pos])
  finally show ?thesis
    by (simp add: pcp_corr_def correlation_eq len rotated_mean [OF rot]
        rotated_sum_sq_dev [OF rot])
qed

subsection \<open>The scan of rotated scores\<close>

lemma scan_max_cases:
  "fst (scan c N) = Fin (- 1) \<or> (\<exists>s<N. fst (scan c N) = c (int s))"
proof -
  obtain mx mx2 idx where s: "scan c N = (mx, mx2, idx)" by (cases "scan c N")
  show ?thesis
  proof (cases "idx = - 1")
    case True
    then show ?thesis using scan_char [OF s] s by simp
  next
    case False
    then have "0 \<le> idx" "idx < int N" "mx = c idx" using scan_char [OF s] by simp_all
    then have "nat idx < N" "mx = c (int (nat idx))" by simp_all
    then show ?thesis using s by auto
  qed
qed

lemma scan_max_upper: "s < N \<Longrightarrow> \<not> fgt (c (int s)) (fst (scan c N))"
  using scan_char [of c N] by (cases "scan c N") simp

lemma scan_max_lower: "\<not> fgt (Fin (- 1)) (fst (scan c N))"
  using scan_char [of c N] by (cases "scan c N") simp

lemma scan_max_not_NaN: "fst (scan c N) \<noteq> NaN"
  using scan_char [of c N] by (cases "scan c N") simp

text \<open>The maximum of the scan does not depend on the order of the scores.\<close>

lemma scan_max_le:
  assumes "\<forall>s<N. \<exists>t<N. c (int s) = c' (int t)"
  shows "\<not> fgt (fst (scan c N)) (fst (scan c' N))"
proof
  assume gt: "fgt (fst (scan c N)) (fst (scan c' N))"
  from scan_max_cases [of c N] show False
  proof
    assume "fst (scan c N) = Fin (- 1)"
    then show False using gt scan_max_lower [of c' N] by simp
  next
    assume "\<exists>s<N. fst (scan c N) = c (int s)"
    then obtain s where "s < N" "fst (scan c N) = c (int s)" by blast
    with assms obtain t where "t < N" "fst (scan c N) = c' (int t)" by metis
    then show False using gt scan_max_upper [of t N c'] by simp
  qed
qed

lemma scan_max_perm:
  assumes "\<forall>s<N. \<exists>t<N. c (int s) = c' (int t)" "\<forall>t<N. \<exists>s<N. c' (int t) = c (int s)"
  shows "fst (scan c N) = fst (scan c' N)"
  using scan_max_le [OF assms(1)] scan_max_le [OF assms(2)]
    fgt_total [OF scan_max_not_NaN scan_max_not_NaN, of c N c' N]
  by blast

text \<open>A best score reached at one shift only fixes the result of the scan.\<close>

lemma scan_unique_best:
  assumes k: "k < N" and gt: "fgt (c (int k)) (Fin (- 1))"
    and others: "\<forall>s<N. s \<noteq> k \<longrightarrow> \<not> fge (c (int s)) (c (int k))"
  shows "fst (scan c N) = c (int k) \<and> snd (snd (scan c N)) = int k"
proof -
  obtain mx mx2 idx where s: "scan c N = (mx, mx2, idx)" by (cases "scan c N")
  note ch = scan_char [OF s]
  have nk: "\<not> fgt (c (int k)) mx" using ch k by simp
  have "idx \<noteq> - 1"
  proof
    assume "idx = - 1"
    then have "mx = Fin (- 1)" using ch by simp
    then show False using nk gt by simp
  qed
  then have idx: "0 \<le> idx" "idx < int N" "mx = c idx" using ch by simp_all
  have "nat idx = k"
  proof (rule ccontr)
    assume ne: "nat idx \<noteq> k"
    have "nat idx < N" using idx by simp
    then have "\<not> fge (c (int (nat idx))) (c (int k))" using others ne by blast
    then have "\<not> fge mx (c (int k))" using idx by simp
    moreover have "mx \<noteq> NaN" using ch by simp
    moreover have "c (int k) \<noteq> NaN" using gt fgt_not_NaN by blast
    ultimately show False using nk by (simp add: fge_iff)
  qed
  then show ?thesis using s idx by auto
qed

lemma keyIndex_of_rotated:
  assumes len: "12 \<le> N" "N mod 12 = 0" and k: "k < N"
  shows "keyIndex_of (int ((k + N div 12) mod N)) N = (keyIndex_of (int k) N + 1) mod 12"
proof -
  define n where "n = N div 12"
  have "12 dvd N" using len(2) by presburger
  then have N: "N = n * 12" by (simp add: n_def)
  have n: "0 < n" using len(1) N by simp
  have a: "keyIndex_of (int j) N = int (j div n)" for j
  proof -
    have "int j * 12 div int N = int (j * 12 div (n * 12))"
      by (simp add: N zdiv_int)
    also have "\<dots> = int (j div n)" by simp
    finally show ?thesis by (simp add: keyIndex_of_nonneg)
  qed
  have "((k + n) mod (n * 12)) div n = ((k + n) div n) mod 12"
    using n by (simp add: mod_mult2_eq)
  also have "\<dots> = (k div n + 1) mod 12" using n by simp
  finally have b: "((k + n) mod N) div n = (k div n + 1) mod 12" by (simp only: N)
  have "keyIndex_of (int ((k + n) mod N)) N = int (((k + n) mod N) div n)" by (rule a)
  also have "\<dots> = int ((k div n + 1) mod 12)" by (simp only: b)
  also have "\<dots> = (int (k div n) + 1) mod 12" by (simp add: zmod_int add.commute)
  also have "\<dots> = (keyIndex_of (int k) N + 1) mod 12" by (simp only: a)
  finally show ?thesis by (simp only: n_def)
qed

lemma scan_rotated_scores:
  assumes N: "0 < N" and rot: "\<And>s. c' s = c ((s - int n) mod int N)"
  shows "fst (scan c' N) = fst (scan c N)"
    and "k < N \<Longrightarrow> fgt (c (int k)) (Fin (- 1)) \<Longrightarrow>
         (\<forall>s<N. s \<noteq> k \<longrightarrow> \<not> fge (c (int s)) (c (int k))) \<Longrightarrow>
         fst (scan c' N) = c (int k) \<and> snd (snd (scan c' N)) = int ((k + n) mod N)"
proof -
  have pos: "0 < int N" using N by simp
  have bwd: "nat ((int t - int n) mod int N) < N \<and>
              c' (int t) = c (int (nat ((int t - int n) mod int N)))" for t
  proof -
    have "0 \<le> (int t - int n) mod int N" "(int t - int n) mod int N < int N"
      using pos by simp_all
    then show ?thesis using rot [of "int t"] by simp
  qed
  have fwd: "(s + n) mod N < N \<and> c' (int ((s + n) mod N)) = c (int s)" if "s < N" for s
  proof -
    have "(int ((s + n) mod N) - int n) mod int N = (int s + int n - int n) mod int N"
      by (simp add: zmod_int mod_diff_left_eq)
    also have "\<dots> = int s" using that by simp
    finally show ?thesis using rot [of "int ((s + n) mod N)"] N by simp
  qed
  have "\<forall>t<N. \<exists>s<N. c' (int t) = c (int s)" using bwd by blast
  moreover have "\<forall>s<N. \<exists>t<N. c (int s) = c' (int t)" using fwd by metis
  ultimately show "fst (scan c' N) = fst (scan c N)"
    by (intro scan_max_perm) 
next
  assume k: "k < N" and gt: "fgt (c (int k)) (Fin (- 1))"
    and others: "\<forall>s<N. s \<noteq> k \<longrightarrow> \<not> fge (c (int s)) (c (int k))"
  have pos: "0 < int N" using N by simp
  let ?k' = "(k + n) mod N"
  have k': "?k' < N" using N by simp
  have "(int ?k' - int n) mod int N = (int k + int n - int n) mod int N"
    by (simp add: zmod_int mod_diff_left_eq)
  also have "\<dots> = int k" using k by simp
  finally have ck': "c' (int ?k') = c (int k)" using rot [of "int ?k'"] by simp
  have "\<not> fge (c' (int t)) (c' (int ?k'))" if t: "t < N" "t \<noteq> ?k'" for t
  proof -
    let ?s = "nat ((int t - int n) mod int N)"
    have r: "0 \<le> (int t - int n) mod int N" "(int t - int n) mod int N < int N"
      using pos by simp_all
    then have s: "?s < N" by simp
    have "?s \<noteq> k"
    proof
      assume "?s = k"
      then have "(int t - int n) mod int N = int k" using r by simp
      then have "((int t - int n) mod int N + int n) mod int N = (int k + int n) mod int N"
        by simp
      then have "int t mod int N = (int k + int n) mod int N"
        by (simp add: mod_add_left_eq)
      then have "int t = int ?k'" using t(1) by (simp add: zmod_int)
      then show False using t(2) by simp
    qed
    then have "\<not> fge (c (int ?s)) (c (int k))" using others s by blast
    moreover have "c' (int t) = c (int ?s)" using rot [of "int t"] r by simp
    ultimately show ?thesis using ck' by simp
  qed
  then have "\<forall>t<N. t \<noteq> ?k' \<longrightarrow> \<not> fge (c' (int t)) (c' (int ?k'))" by blast
  moreover have "fgt (c' (int ?k')) (Fin (- 1))" using gt ck' by simp
  ultimately show "fst (scan c' N) = c (int k) \<and> snd (snd (scan c' N)) = int ((k + n) mod N)"
    using scan_unique_best [OF k', of c'] ck' by simp
qed

lemma KeyEDM_prepare_length:
  "length (edm_profile_dom (KeyEDM_prepare N st)) = N \<and>
   (length (edm_profile_doM st) = length (edm_profile_dom st) \<longrightarrow>
    length (edm_profile_doM (KeyEDM_prepare N st)) = N)"
  by (simp add: KeyEDM_prepare_def KeyEDM_resize_def Let_def)

lemma KeyEDM_prepare_idem: "KeyEDM_prepare N (KeyEDM_prepare N st) = KeyEDM_prepare N st"
  using KeyEDM_prepare_length [of N st] by (simp add: KeyEDM_prepare_def [of N "KeyEDM_prepare N st"])


subsection \<open>Evaluation on concrete inputs\<close>

lemma interp1:
  "interpolate [t0, t1, t2, t3, t4, t5, t6, t7, t8, t9, t10, t11] (Suc 0) (vector_resize 12 []) =
   [t0, t1, t2, t3, t4, t5, t6, t7, t8, t9, t10, t11]"
  by (simp add: interpolate_def vector_resize_def upt_rec eval_nat_numeral)

lemma KeyEDM_resize_stats:
  "edm_mean_profile_M (KeyEDM_resize N st) = mean (edm_profile_doM (KeyEDM_resize N st))"
  "edm_mean_profile_m (KeyEDM_resize N st) = mean (edm_profile_dom (KeyEDM_resize N st))"
  "edm_std_profile_M (KeyEDM_resize N st) =
     sqrt (sum_sq_dev (edm_profile_doM (KeyEDM_resize N st))
             (mean (edm_profile_doM (KeyEDM_resize N st))) N)"
  "edm_std_profile_m (KeyEDM_resize N st) =
     sqrt (sum_sq_dev (edm_profile_dom (KeyEDM_resize N st))
             (mean (edm_profile_dom (KeyEDM_resize N st))) N)"
  by (simp_all add: KeyEDM_resize_def Let_def)

lemma temperley12_resize:
  "temperley12 = KeyEDM_resize 12 (KeyEDM_SET_PROFILE 0
      (KeyEDM_new\<lparr>edm_profileType := ''temperley'', edm_keys := keyNames\<rparr>))"
  by (simp add: temperley12_def KeyEDM_configured_def KeyEDM_configure_def)

lemma temperley12_profiles:
  "edm_profile_doM temperley12 = pcp_major12"
  "edm_profile_dom temperley12 = temperley_minor"
  "edm_keys temperley12 = keyNames"
  by (simp_all add: temperley12_resize KeyEDM_SET_PROFILE_def
     KeyEDM_profileTypes_def KeyEDM_resize_def Let_def KeyEDM_new_def interp1
     pcp_major12_def temperley_minor_def)

lemma mean_major: "mean pcp_major12 = 77 / 24"
  by (simp add: mean_def pcp_major12_def)

lemma mean_minor: "mean temperley_minor = 77 / 24"
  by (simp add: mean_def temperley_minor_def)

lemma ssd_major: "sum_sq_dev pcp_major12 (77 / 24) 12 = 803 / 48"
  by (simp add: sum_sq_dev_def upt_rec power2_eq_square pcp_major12_def)

lemma ssd_minor: "sum_sq_dev temperley_minor (77 / 24) 12 = 803 / 48"
  by (simp add: sum_sq_dev_def upt_rec power2_eq_square temperley_minor_def)

lemma temperley12_stats:
  "edm_mean_profile_M temperley12 = 77 / 24"
  "edm_mean_profile_m temperley12 = 77 / 24"
  "edm_std_profile_M temperley12 = sqrt (803 / 48)"
  "edm_std_profile_m temperley12 = sqrt (803 / 48)"
  using KeyEDM_resize_stats [of 12 "KeyEDM_SET_PROFILE 0
      (KeyEDM_new\<lparr>edm_profileType := ''temperley'', edm_keys := keyNames\<rparr>)",
      folded temperley12_resize]
  by (simp_all only: temperley12_profiles mean_major mean_minor ssd_major ssd_minor)

lemma temperley12_prepare: "KeyEDM_prepare 12 temperley12 = temperley12"
  by (simp add: KeyEDM_prepare_def temperley12_profiles temperley_minor_def)

lemma pcp_corr_num:
  "pcp_corr pcp prof mean_prof std_prof shift =
     fdiv (Fin (corr_num pcp (mean pcp) prof mean_prof shift))
          (Fin (sqrt (sum_sq_dev pcp (mean pcp) (length pcp)) * std_prof))"
  by (simp add: pcp_corr_def correlation_eq corr_num_def)

lemma scan_eq_scan_list: "scan c N = scan_list (map (\<lambda>s. c (int s)) [0..<N])"
proof -
  have "enumerate 0 (map (\<lambda>s. c (int s)) [0..<N]) = map (\<lambda>s. (s, c (int s))) [0..<N]"
    by (simp add: enumerate_eq_zip zip_map2 zip_same_conv_map)
  then show ?thesis
    by (simp add: scan_def scan_list_def fold_map comp_def)
qed

lemma scan_scores:
  assumes "map (\<lambda>s. c (int s)) [0..<N] = vs"
  shows "scan c N = scan_list vs"
  using assms by (simp add: scan_eq_scan_list)

lemma pcp_scores:
  assumes mu: "mean pcp = mu"
    and nums: "map (\<lambda>s. corr_num pcp mu prof mean_prof (int s)) [0..<N] = ns"
    and D: "sqrt (sum_sq_dev pcp mu (length pcp)) * std_prof = D" "D \<noteq> 0"
  shows "map (\<lambda>s. pcp_corr pcp prof mean_prof std_prof (int s)) [0..<N] = map (score D) ns"
proof -
  have "pcp_corr pcp prof mean_prof std_prof s =
        score D (corr_num pcp mu prof mean_prof s)" for s
    using D mu by (simp add: pcp_corr_num score_def)
  then show ?thesis using nums by (auto simp: map_eq_conv comp_def)
qed

lemma upt12: "[0..<12] = [0, 1, 2, 3, 4, 5, 6, 7, 8, 9, 10, 11]"
  by (simp add: upt_rec)

lemma KeyEDM_tracks_scores:
  assumes len: "length pcp = N" and prep: "KeyEDM_prepare N st = st" and mu: "mean pcp = mu"
    and nM: "map (\<lambda>s. corr_num pcp mu (edm_profile_doM st) (edm_mean_profile_M st) (int s))
               [0..<N] = nsM"
    and nm: "map (\<lambda>s. corr_num pcp mu (edm_profile_dom st) (edm_mean_profile_m st) (int s))
               [0..<N] = nsm"
    and DM: "sqrt (sum_sq_dev pcp mu N) * edm_std_profile_M st = DM" "0 < DM"
    and Dm: "sqrt (sum_sq_dev pcp mu N) * edm_std_profile_m st = Dm" "0 < Dm"
  shows "KeyEDM_tracks pcp st =
           (scan_list (map (score DM) nsM), scan_list (map (score Dm) nsm))"
proof -
  have D0: "DM \<noteq> 0" "Dm \<noteq> 0" using DM(2) Dm(2) by simp_all
  note a = pcp_scores [OF mu nM DM(1) [folded len] D0(1)]
    pcp_scores [OF mu nm Dm(1) [folded len] D0(2)]
  show ?thesis
    unfolding KeyEDM_tracks_def Let_def len prep scan_eq_scan_list
    using a by simp
qed

lemma temperley12_tracks:
  assumes len: "length pcp = 12" and mu: "mean pcp = mu"
    and nM: "map (\<lambda>s. corr_num pcp mu pcp_major12 (77 / 24) (int s)) [0..<12] = nsM"
    and nm: "map (\<lambda>s. corr_num pcp mu temperley_minor (77 / 24) (int s)) [0..<12] = nsm"
    and D: "sqrt (sum_sq_dev pcp mu 12) * sqrt (803 / 48) = D" "0 < D"
  shows "KeyEDM_tracks pcp temperley12 =
           (scan_list (map (score D) nsM), scan_list (map (score D) nsm))"
  by (rule KeyEDM_tracks_scores [OF len temperley12_prepare mu,
        unfolded temperley12_profiles temperley12_stats, OF nM nm D D])

lemma rotatedI:
  assumes "pcp' = map (\<lambda>i. pcp ! nat ((int i - int (length pcp div 12)) mod int (length pcp)))
                    [0..<length pcp]"
  shows "rotated pcp pcp'"
  using assms by (simp add: rotated_def)

lemma rotated_major12: "rotated pcp_major12 pcp_major12_rot"
proof (rule rotatedI)
  have l: "length pcp_major12 = 12" by (simp add: pcp_major12_def)
  show "pcp_major12_rot = map (\<lambda>i. pcp_major12 ! nat ((int i - int (length pcp_major12 div 12))
            mod int (length pcp_major12))) [0..<length pcp_major12]"
    unfolding l upt12 by (simp add: pcp_major12_def pcp_major12_rot_def)
qed

lemma rotated_period6: "rotated pcp_period6 pcp_period6_rot"
proof (rule rotatedI)
  have l: "length pcp_period6 = 12" by (simp add: pcp_period6_def)
  show "pcp_period6_rot = map (\<lambda>i. pcp_period6 ! nat ((int i - int (length pcp_period6 div 12))
            mod int (length pcp_period6))) [0..<length pcp_period6]"
    unfolding l upt12 by (simp add: pcp_period6_def pcp_period6_rot_def)
qed

lemma nums_major12:
  "map (\<lambda>s. corr_num pcp_major12 (77 / 24) pcp_major12 (77 / 24) (int s)) [0..<12] =
     [803 / 48, - 397 / 48, 47 / 48, - 97 / 48, - 133 / 48, 467 / 48,
      - 577 / 48, 467 / 48, - 133 / 48, - 97 / 48, 47 / 48, - 397 / 48]"
  "map (\<lambda>s. corr_num pcp_major12 (77 / 24) temperley_minor (77 / 24) (int s)) [0..<12] =
     [395 / 48, - 193 / 48, 107 / 48, - 469 / 48, 383 / 48, 179 / 48,
      - 229 / 48, - 13 / 48, - 217 / 48, 407 / 48, - 313 / 48, - 37 / 48]"
  unfolding upt12 corr_num_def
  by (simp_all add: lessThan_Suc eval_nat_numeral pcp_major12_def temperley_minor_def)

lemma nums_major12_rot:
  "map (\<lambda>s. corr_num pcp_major12_rot (77 / 24) pcp_major12 (77 / 24) (int s)) [0..<12] =
     [- 397 / 48, 803 / 48, - 397 / 48, 47 / 48, - 97 / 48, - 133 / 48, 467 / 48,
      - 577 / 48, 467 / 48, - 133 / 48, - 97 / 48, 47 / 48]"
  "map (\<lambda>s. corr_num pcp_major12_rot (77 / 24) temperley_minor (77 / 24) (int s)) [0..<12] =
     [- 37 / 48, 395 / 48, - 193 / 48, 107 / 48, - 469 / 48, 383 / 48, 179 / 48,
      - 229 / 48, - 13 / 48, - 217 / 48, 407 / 48, - 313 / 48]"
  unfolding upt12 corr_num_def
  by (simp_all add: lessThan_Suc eval_nat_numeral pcp_major12_def pcp_major12_rot_def
      temperley_minor_def)

lemma nums_period6:
  "map (\<lambda>s. corr_num pcp_period6 (5 / 2) pcp_major12 (77 / 24) (int s)) [0..<12] =
     [17 / 4, 5 / 4, - 5 / 4, - 25 / 4, - 9 / 4, 17 / 4, 17 / 4, 5 / 4, - 5 / 4, - 25 / 4, - 9 / 4, 17 / 4]"
  "map (\<lambda>s. corr_num pcp_period6 (5 / 2) temperley_minor (77 / 24) (int s)) [0..<12] =
     [- 19 / 4, - 3 / 4, 1 / 4, - 35 / 4, 25 / 4, 31 / 4, - 19 / 4, - 3 / 4, 1 / 4, - 35 / 4, 25 / 4, 31 / 4]"
  unfolding upt12 corr_num_def
  by (simp_all add: lessThan_Suc eval_nat_numeral pcp_major12_def pcp_period6_def
      temperley_minor_def)

lemma nums_period6_rot:
  "map (\<lambda>s. corr_num pcp_period6_rot (5 / 2) pcp_major12 (77 / 24) (int s)) [0..<12] =
     [17 / 4, 17 / 4, 5 / 4, - 5 / 4, - 25 / 4, - 9 / 4, 17 / 4, 17 / 4, 5 / 4, - 5 / 4, - 25 / 4, - 9 / 4]"
  "map (\<lambda>s. corr_num pcp_period6_rot (5 / 2) temperley_minor (77 / 24) (int s)) [0..<12] =
     [31 / 4, - 19 / 4, - 3 / 4, 1 / 4, - 35 / 4, 25 / 4, 31 / 4, - 19 / 4, - 3 / 4, 1 / 4, - 35 / 4, 25 / 4]"
  unfolding upt12 corr_num_def
  by (simp_all add: lessThan_Suc eval_nat_numeral pcp_major12_def pcp_period6_rot_def
      temperley_minor_def)

lemma pcp_stats:
  "mean pcp_major12_rot = 77 / 24" "sum_sq_dev pcp_major12_rot (77 / 24) 12 = 803 / 48"
  "mean pcp_period6 = 5 / 2" "sum_sq_dev pcp_period6 (5 / 2) 12 = 27"
  "mean pcp_period6_rot = 5 / 2" "sum_sq_dev pcp_period6_rot (5 / 2) 12 = 27"
  unfolding sum_sq_dev_def upt12
  by (simp_all add: mean_def pcp_major12_rot_def pcp_period6_def pcp_period6_rot_def)

lemma fgt_score [simp]: "0 < D \<Longrightarrow> fgt (score D a) (score D b) = (b < a)"
  by (simp add: score_def divide_less_cancel)

lemma fgt_score_m1 [simp]: "0 < D \<Longrightarrow> fgt (score D a) (Fin (- 1)) = (- D < a)"
  by (simp add: score_def less_divide_eq)

lemma fge_score [simp]: "0 < D \<Longrightarrow> fge (score D a) (score D b) = (b \<le> a)"
  by (auto simp add: fge_def score_def divide_less_cancel)

lemma fge_score_m1 [simp]: "0 < D \<Longrightarrow> fge (score D a) (Fin (- 1)) = (- D \<le> a)"
  by (auto simp add: fge_def score_def less_divide_eq field_simps)

lemma fge_m1_score [simp]: "0 < D \<Longrightarrow> fge (Fin (- 1)) (score D a) = (a \<le> - D)"
  by (auto simp add: fge_def score_def divide_less_eq field_simps)

lemma scan_list_major12:
  assumes "0 < D"
  shows "scan_list (map (score D) [803 / 48, - 397 / 48, 47 / 48, - 97 / 48, - 133 / 48, 467 / 48,
      - 577 / 48, 467 / 48, - 133 / 48, - 97 / 48, 47 / 48, - 397 / 48])
     = (score D (803 / 48), Fin (- 1), 0)"
  using assms
  by (simp add: scan_list_def enumerate_eq_zip upt12 update_def track0_def)

lemma score_not_NaN [simp]: "score D a \<noteq> NaN"
  by (simp add: score_def)

lemma relativeStrength_score:
  assumes "0 < D" "a \<noteq> 0"
  shows "relativeStrength (score D a) (score D b) = Fin ((a - b) / a)"
    and "relativeStrength (score D a) (Fin (- 1)) = Fin ((a + D) / a)"
  using assms by (simp_all add: relativeStrength_def score_def field_simps)

lemma scan_list_major12_minor:
  assumes "0 < D"
  shows "scan_list (map (score D) [395 / 48, - 193 / 48, 107 / 48, - 469 / 48, 383 / 48, 179 / 48,
      - 229 / 48, - 13 / 48, - 217 / 48, 407 / 48, - 313 / 48, - 37 / 48])
     = (score D (407 / 48), score D (395 / 48), 9)"
  using assms
  by (simp add: scan_list_def enumerate_eq_zip upt12 update_def track0_def)

lemma scan_list_major12_rot:
  "scan_list (map (score (803 / 48)) [- 397 / 48, 803 / 48, - 397 / 48, 47 / 48, - 97 / 48, - 133 / 48, 467 / 48,
      - 577 / 48, 467 / 48, - 133 / 48, - 97 / 48, 47 / 48])
     = (score (803 / 48) (803 / 48), score (803 / 48) (- 397 / 48), 1)"
  "scan_list (map (score (803 / 48)) [- 37 / 48, 395 / 48, - 193 / 48, 107 / 48, - 469 / 48, 383 / 48, 179 / 48,
      - 229 / 48, - 13 / 48, - 217 / 48, 407 / 48, - 313 / 48])
     = (score (803 / 48) (407 / 48), score (803 / 48) (395 / 48), 10)"
  by (simp_all add: scan_list_def enumerate_eq_zip upt12 update_def track0_def)

lemma scan_list_period6:
  assumes "5 < D"
  shows "scan_list (map (score D)
            [17 / 4, 5 / 4, - 5 / 4, - 25 / 4, - 9 / 4, 17 / 4, 17 / 4, 5 / 4, - 5 / 4, - 25 / 4, - 9 / 4, 17 / 4])
         = (score D (17 / 4), Fin (- 1), 0)"
    and "scan_list (map (score D)
            [- 19 / 4, - 3 / 4, 1 / 4, - 35 / 4, 25 / 4, 31 / 4, - 19 / 4, - 3 / 4, 1 / 4, - 35 / 4, 25 / 4, 31 / 4])
         = (score D (31 / 4), score D (25 / 4), 5)"
    and "scan_list (map (score D)
            [17 / 4, 17 / 4, 5 / 4, - 5 / 4, - 25 / 4, - 9 / 4, 17 / 4, 17 / 4, 5 / 4, - 5 / 4, - 25 / 4, - 9 / 4])
         = (score D (17 / 4), Fin (- 1), 0)"
    and "scan_list (map (score D)
            [31 / 4, - 19 / 4, - 3 / 4, 1 / 4, - 35 / 4, 25 / 4, 31 / 4, - 19 / 4, - 3 / 4, 1 / 4, - 35 / 4, 25 / 4])
         = (score D (31 / 4), Fin (- 1), 0)"
  using assms
  by (simp_all add: scan_list_def enumerate_eq_zip upt12 update_def track0_def)

lemma len12 [simp]:
  "length pcp_major12 = 12" "length pcp_major12_rot = 12"
  "length pcp_period6 = 12" "length pcp_period6_rot = 12"
  by (simp_all add: pcp_major12_def pcp_major12_rot_def pcp_period6_def pcp_period6_rot_def)

lemma D_major: "sqrt (803 / 48) * sqrt (803 / 48) = (803 / 48 :: real)" "(0::real) < 803 / 48"
  by simp_all

lemma D_period6:
  "sqrt 27 * sqrt (803 / 48) = sqrt 27 * sqrt (803 / 48)"
  "(0::real) < sqrt 27 * sqrt (803 / 48)"
  by simp_all

lemma D_period6_gt: "5 < sqrt 27 * sqrt (803 / 48)"
proof -
  have "(5::real) < sqrt 27" by (rule real_less_rsqrt) simp
  moreover have "(1::real) < sqrt (803 / 48)" by (rule real_less_rsqrt) simp
  ultimately have "5 * 1 < sqrt 27 * sqrt (803 / 48)"
    by (intro mult_strict_mono) simp_all
  then show ?thesis by simp
qed

lemma tracks_major12:
  "KeyEDM_tracks pcp_major12 temperley12 =
     ((score (803 / 48) (803 / 48), Fin (- 1), 0),
      (score (803 / 48) (407 / 48), score (803 / 48) (395 / 48), 9))"
  by (simp only: temperley12_tracks [OF len12(1) mean_major nums_major12, unfolded ssd_major, OF D_major]
      scan_list_major12 [OF D_major(2)] scan_list_major12_minor [OF D_major(2)])

lemma tracks_major12_rot:
  "KeyEDM_tracks pcp_major12_rot temperley12 =
     ((score (803 / 48) (803 / 48), score (803 / 48) (- 397 / 48), 1),
      (score (803 / 48) (407 / 48), score (803 / 48) (395 / 48), 10))"
  by (simp only: temperley12_tracks [OF len12(2) pcp_stats(1) nums_major12_rot,
        unfolded pcp_stats, OF D_major] scan_list_major12_rot)

lemma tracks_period6:
  "KeyEDM_tracks pcp_period6 temperley12 =
     ((score (sqrt 27 * sqrt (803 / 48)) (17 / 4), Fin (- 1), 0),
      (score (sqrt 27 * sqrt (803 / 48)) (31 / 4), score (sqrt 27 * sqrt (803 / 48)) (25 / 4), 5))"
  by (simp only: temperley12_tracks [OF len12(3) pcp_stats(3) nums_period6,
        unfolded pcp_stats, OF D_period6] scan_list_period6 [OF D_period6_gt])

lemma tracks_period6_rot:
  "KeyEDM_tracks pcp_period6_rot temperley12 =
     ((score (sqrt 27 * sqrt (803 / 48)) (17 / 4), Fin (- 1), 0),
      (score (sqrt 27 * sqrt (803 / 48)) (31 / 4), Fin (- 1), 0))"
  by (simp only: temperley12_tracks [OF len12(4) pcp_stats(5) nums_period6_rot,
        unfolded pcp_stats, OF D_period6] scan_list_period6 [OF D_period6_gt])

lemma keyNames_nth:
  "keyNames ! 0 = ''A''" "keyNames ! 1 = ''Bb''" "keyNames ! Suc 0 = ''Bb''" "keyNames ! 5 = ''D''" "keyNames ! 6 = ''Eb''"
  by (simp_all add: keyNames_def)

lemma keyIndex_of_12: "0 \<le> k \<Longrightarrow> keyIndex_of k 12 = k"
  by (simp add: keyIndex_of_nonneg)

lemma valid12: "12 \<le> (12::nat)" "(12::nat) mod 12 = 0"
  by simp_all

lemma compute_major12:
  "KeyEDM_compute pcp_major12 temperley12 =
     (Inr \<lparr>key = ''A'', scale = ''major'', strength = Fin 1,
           firstToSecondRelativeStrength = Fin 2\<rparr>, temperley12)"
proof -
  have "fst (KeyEDM_compute pcp_major12 temperley12) =
     Inr \<lparr>key = ''A'', scale = ''major'', strength = Fin 1,
           firstToSecondRelativeStrength = Fin 2\<rparr>"
    using KeyEDM_compute_spec [of pcp_major12 temperley12]
    by (simp add: temperley12_profiles tracks_major12 keyIndex_of_12 keyNames_nth
        relativeStrength_score) (simp add: score_def)
  moreover have "snd (KeyEDM_compute pcp_major12 temperley12) = temperley12"
    by (simp add: KeyEDM_compute_eq temperley12_prepare)
  ultimately show ?thesis by (simp add: prod_eq_iff)
qed

lemma compute_major12_rot:
  "KeyEDM_compute pcp_major12_rot temperley12 =
     (Inr \<lparr>key = ''Bb'', scale = ''major'', strength = Fin 1,
           firstToSecondRelativeStrength = Fin (1200 / 803)\<rparr>, temperley12)"
proof -
  have "fst (KeyEDM_compute pcp_major12_rot temperley12) =
     Inr \<lparr>key = ''Bb'', scale = ''major'', strength = Fin 1,
           firstToSecondRelativeStrength = Fin (1200 / 803)\<rparr>"
    using KeyEDM_compute_spec [of pcp_major12_rot temperley12]
    by (simp add: temperley12_profiles tracks_major12_rot keyIndex_of_12 keyNames_nth
        relativeStrength_score) (simp add: score_def)
  moreover have "snd (KeyEDM_compute pcp_major12_rot temperley12) = temperley12"
    by (simp add: KeyEDM_compute_eq temperley12_prepare)
  ultimately show ?thesis by (simp add: prod_eq_iff)
qed

lemma compute_period6:
  "KeyEDM_compute pcp_period6 temperley12 =
     (Inr \<lparr>key = ''D'', scale = ''minor'',
           strength = score (sqrt 27 * sqrt (803 / 48)) (31 / 4),
           firstToSecondRelativeStrength = Fin (6 / 31)\<rparr>, temperley12)"
proof -
  note D = D_period6(2)
  have "fst (KeyEDM_compute pcp_period6 temperley12) =
     Inr \<lparr>key = ''D'', scale = ''minor'',
           strength = score (sqrt 27 * sqrt (803 / 48)) (31 / 4),
           firstToSecondRelativeStrength = Fin (6 / 31)\<rparr>"
    using KeyEDM_compute_spec [of pcp_period6 temperley12]
    by (simp add: temperley12_profiles tracks_period6 keyIndex_of_12 keyNames_nth
        relativeStrength_score [OF D] fge_score [OF D] spec_select2_def)
  moreover have "snd (KeyEDM_compute pcp_period6 temperley12) = temperley12"
    by (simp add: KeyEDM_compute_eq temperley12_prepare)
  ultimately show ?thesis by (simp add: prod_eq_iff)
qed

lemma compute_period6_rot:
  "KeyEDM_compute pcp_period6_rot temperley12 =
     (Inr \<lparr>key = ''A'', scale = ''minor'',
           strength = score (sqrt 27 * sqrt (803 / 48)) (31 / 4),
           firstToSecondRelativeStrength =
             Fin ((31 / 4 + sqrt 27 * sqrt (803 / 48)) / (31 / 4))\<rparr>,
      temperley12)"
proof -
  note D = D_period6(2)
  have "fst (KeyEDM_compute pcp_period6_rot temperley12) =
     Inr \<lparr>key = ''A'', scale = ''minor'',
           strength = score (sqrt 27 * sqrt (803 / 48)) (31 / 4),
           firstToSecondRelativeStrength =
             Fin ((31 / 4 + sqrt 27 * sqrt (803 / 48)) / (31 / 4))\<rparr>"
    using KeyEDM_compute_spec [of pcp_period6_rot temperley12]
    by (simp add: temperley12_profiles tracks_period6_rot keyIndex_of_12 keyNames_nth
        relativeStrength_score [OF D] fge_score [OF D] spec_select2_def)
  moreover have "snd (KeyEDM_compute pcp_period6_rot temperley12) = temperley12"
    by (simp add: KeyEDM_compute_eq temperley12_prepare)
  ultimately show ?thesis by (simp add: prod_eq_iff)
qed

lemma unique_best_scores:
  assumes sc: "map (\<lambda>s. c (int s)) [0..<N] = map (score D) ns" and D: "0 < D"
    and k: "k < N" "- D < ns ! k" and others: "\<forall>s<N. s \<noteq> k \<longrightarrow> ns ! s < ns ! k"
  shows "unique_best c N"
proof -
  have len: "length ns = N" using arg_cong [OF sc, of length] by simp
  have v: "c (int s) = score D (ns ! s)" if "s < N" for s
    using arg_cong [OF sc, of "\<lambda>l. l ! s"] that len by simp
  have "fgt (c (int k)) (Fin (- 1))" using v [OF k(1)] D k(2) by simp
  moreover have "\<not> fge (c (int s)) (c (int k))" if "s < N" "s \<noteq> k" for s
    using v [OF that(1)] v [OF k(1)] D others [rule_format, OF that] by simp
  ultimately show ?thesis unfolding unique_best_def using k(1) by blast
qed

lemma all_less_12:
  "(\<forall>s<12. P s) = (P 0 \<and> P 1 \<and> P 2 \<and> P 3 \<and> P 4 \<and> P 5 \<and> P 6 \<and> P 7 \<and> P 8 \<and> P 9 \<and> P 10 \<and> P (11::nat))"
proof -
  have "(\<forall>s<12. P s) = (\<forall>s\<in>set [0..<12]. P s)" by auto
  also have "\<dots> = (P 0 \<and> P 1 \<and> P 2 \<and> P 3 \<and> P 4 \<and> P 5 \<and> P 6 \<and> P 7 \<and> P 8 \<and> P 9 \<and> P 10 \<and> P 11)"
    unfolding upt12 by simp
  finally show ?thesis .
qed

lemma winning_major12:
  "KeyEDM_winning_corr pcp_major12 temperley12 =
     pcp_corr pcp_major12 pcp_major12 (77 / 24) (sqrt (803 / 48))"
proof -
  have "fge (fst (fst (KeyEDM_tracks pcp_major12 temperley12)))
            (fst (snd (KeyEDM_tracks pcp_major12 temperley12)))"
    by (simp add: tracks_major12)
  then show ?thesis
    by (simp add: KeyEDM_winning_corr_def KeyEDM_tracks_def Let_def temperley12_prepare
        temperley12_profiles temperley12_stats)
qed

lemma unique_best_major12:
  "unique_best (KeyEDM_winning_corr pcp_major12 temperley12) (length pcp_major12)"
proof -
  have D': "sqrt (sum_sq_dev pcp_major12 (77 / 24) (length pcp_major12)) *
            sqrt (803 / 48) = 803 / 48"
    by (simp add: ssd_major)
  have sc: "map (\<lambda>s. pcp_corr pcp_major12 pcp_major12 (77 / 24) (sqrt (803 / 48)) (int s))
              [0..<12] =
            map (score (803 / 48))
              [803 / 48, - 397 / 48, 47 / 48, - 97 / 48, - 133 / 48, 467 / 48,
               - 577 / 48, 467 / 48, - 133 / 48, - 97 / 48, 47 / 48, - 397 / 48]"
    by (rule pcp_scores [OF mean_major nums_major12(1) D']) simp
  show ?thesis
    unfolding winning_major12 len12
    by (rule unique_best_scores [OF sc, of 0]) (simp_all add: all_less_12)
qed

lemma keyNames_index:
  assumes "k < 12" "keyNames ! k = keyNames ! j" "j < 12"
  shows "k = j"
proof -
  have "distinct keyNames" by (simp add: keyNames_def)
  moreover have "k < length keyNames" "j < length keyNames"
    using assms by (simp_all add: keyNames_def)
  ultimately show ?thesis using assms(2) by (simp add: nth_eq_iff_index_eq)
qed


subsection \<open>Claim about the rotation of the PCP\<close>

text \<open>
  Claim C8, as amended.  Let \<open>pcp'\<close> be \<open>pcp\<close> rotated by one semitone's worth of
  bins, \<open>pcp\<close> of valid length, on a configured KeyEDM object.  If the best score of the
  winning mode exceeds the initial value \<open>-1\<close> and is reached at one shift only, then
  \<open>compute\<close> returns for \<open>pcp'\<close> the key one position after the key for \<open>pcp\<close>
  in the 12 names (modulo 12), with the same scale and the same strength.  (Nothing is
  said about firstToSecondRelativeStrength.)
\<close>

theorem rotation_shifts_key:
  assumes len: "12 \<le> length pcp" "length pcp mod 12 = 0"
    and rot: "rotated pcp pcp'"
    and keys: "edm_keys st = keyNames"
    and uniq: "unique_best (KeyEDM_winning_corr pcp st) (length pcp)"
  shows "\<exists>out out' k. fst (KeyEDM_compute pcp st) = Inr out \<and>
           fst (KeyEDM_compute pcp' st) = Inr out' \<and>
           k < 12 \<and> key out = keyNames ! k \<and> key out' = keyNames ! ((k + 1) mod 12) \<and>
           scale out' = scale out \<and> strength out' = strength out"
proof -
  define N where "N = length pcp"
  define n where "n = N div 12"
  define st1 where "st1 = KeyEDM_prepare N st"
  define cM where "cM = pcp_corr pcp (edm_profile_doM st1) (edm_mean_profile_M st1)
                        (edm_std_profile_M st1)"
  define cm where "cm = pcp_corr pcp (edm_profile_dom st1) (edm_mean_profile_m st1)
                        (edm_std_profile_m st1)"
  define cM' where "cM' = pcp_corr pcp' (edm_profile_doM st1) (edm_mean_profile_M st1)
                        (edm_std_profile_M st1)"
  define cm' where "cm' = pcp_corr pcp' (edm_profile_dom st1) (edm_mean_profile_m st1)
                        (edm_std_profile_m st1)"
  have N': "length pcp' = N" using rot by (simp add: rotated_def N_def)
  have N12: "12 \<le> N" "N mod 12 = 0" using len by (simp_all add: N_def)
  then have Npos: "0 < N" by simp
  have len': "12 \<le> length pcp'" "length pcp' mod 12 = 0" using N12 N' by simp_all
  have trk: "KeyEDM_tracks pcp st = (scan cM N, scan cm N)"
    by (simp add: KeyEDM_tracks_def Let_def cM_def cm_def st1_def N_def)
  have trk': "KeyEDM_tracks pcp' st = (scan cM' N, scan cm' N)"
    by (simp add: KeyEDM_tracks_def Let_def cM'_def cm'_def st1_def N')
  have rM: "cM' s = cM ((s - int n) mod int N)" for s
    unfolding cM'_def cM_def n_def N_def by (rule pcp_corr_rotated [OF rot])
  have rm: "cm' s = cm ((s - int n) mod int N)" for s
    unfolding cm'_def cm_def n_def N_def by (rule pcp_corr_rotated [OF rot])
  have maxM: "fst (scan cM' N) = fst (scan cM N)"
    by (rule scan_rotated_scores(1) [where c = cM and c' = cM' and n = n, OF Npos rM])
  have maxm: "fst (scan cm' N) = fst (scan cm N)"
    by (rule scan_rotated_scores(1) [where c = cm and c' = cm' and n = n, OF Npos rm])
  obtain M M2 kM where sM: "scan cM N = (M, M2, kM)" by (cases "scan cM N")
  obtain m m2 km where sm: "scan cm N = (m, m2, km)" by (cases "scan cm N")
  obtain M' M2' kM' where sM': "scan cM' N = (M', M2', kM')" by (cases "scan cM' N")
  obtain m' m2' km' where sm': "scan cm' N = (m', m2', km')" by (cases "scan cm' N")
  have MM: "M' = M" "m' = m" using maxM maxm sM sm sM' sm' by simp_all
  have win: "KeyEDM_winning_corr pcp st = (if fge M m then cM else cm)"
    unfolding KeyEDM_winning_corr_def Let_def N_def [symmetric] st1_def [symmetric]
      cM_def [symmetric] cm_def [symmetric]
    by (simp add: sM sm)
  have out: "fst (KeyEDM_compute pcp st) =
      (if fge M m
        then Inr \<lparr>key = keyNames ! nat (keyIndex_of kM N), scale = ''major'',
                  strength = M, firstToSecondRelativeStrength = relativeStrength M M2\<rparr>
        else Inr \<lparr>key = keyNames ! nat (keyIndex_of km N), scale = ''minor'',
                  strength = m, firstToSecondRelativeStrength = relativeStrength m m2\<rparr>)"
    using KeyEDM_compute_spec [OF len keys] unfolding trk N_def [symmetric] sM sm by simp
  have out': "fst (KeyEDM_compute pcp' st) =
      (if fge M m
        then Inr \<lparr>key = keyNames ! nat (keyIndex_of kM' N), scale = ''major'',
                  strength = M, firstToSecondRelativeStrength = relativeStrength M M2'\<rparr>
        else Inr \<lparr>key = keyNames ! nat (keyIndex_of km' N), scale = ''minor'',
                  strength = m, firstToSecondRelativeStrength = relativeStrength m m2'\<rparr>)"
    using KeyEDM_compute_spec [OF len' keys] unfolding trk' N' sM' sm' MM by simp
  from uniq obtain k where k: "k < N"
    and gt: "fgt (KeyEDM_winning_corr pcp st (int k)) (Fin (- 1))"
    and others: "\<forall>s<N. s \<noteq> k \<longrightarrow>
        \<not> fge (KeyEDM_winning_corr pcp st (int s)) (KeyEDM_winning_corr pcp st (int k))"
    unfolding unique_best_def N_def by blast
  have ki: "keyIndex_of (int ((k + n) mod N)) N = (keyIndex_of (int k) N + 1) mod 12"
    unfolding n_def by (rule keyIndex_of_rotated [OF N12 k])
  have kr: "0 \<le> keyIndex_of (int k) N" "keyIndex_of (int k) N \<le> 11"
    using keyIndex_of_range [OF N12(1), of "int k"] k by simp_all
  define j where "j = nat (keyIndex_of (int k) N)"
  have j: "j < 12" "keyIndex_of (int k) N = int j" using kr by (simp_all add: j_def)
  have j': "nat (keyIndex_of (int ((k + n) mod N)) N) = (j + 1) mod 12"
    using ki j by (simp add: nat_mod_distrib nat_add_distrib)
  show ?thesis
  proof (cases "fge M m")
    case True
    then have w: "KeyEDM_winning_corr pcp st = cM" using win by simp
    have "fst (scan cM N) = cM (int k) \<and> snd (snd (scan cM N)) = int k"
      using scan_unique_best [OF k, of cM] gt others w by simp
    then have a: "kM = int k" using sM by simp
    have "fst (scan cM' N) = cM (int k) \<and> snd (snd (scan cM' N)) = int ((k + n) mod N)"
      using scan_rotated_scores(2) [where c = cM and c' = cM' and n = n, OF Npos rM k] gt others w by simp
    then have b: "kM' = int ((k + n) mod N)" using sM' by simp
    have "fst (KeyEDM_compute pcp st) =
        Inr \<lparr>key = keyNames ! j, scale = ''major'', strength = M,
             firstToSecondRelativeStrength = relativeStrength M M2\<rparr>"
      using True out a j(2) by simp
    moreover have "fst (KeyEDM_compute pcp' st) =
        Inr \<lparr>key = keyNames ! ((j + 1) mod 12), scale = ''major'', strength = M,
             firstToSecondRelativeStrength = relativeStrength M M2'\<rparr>"
      using True out' b j' by simp
    ultimately show ?thesis using j(1) by force
  next
    case False
    then have w: "KeyEDM_winning_corr pcp st = cm" using win by simp
    have "fst (scan cm N) = cm (int k) \<and> snd (snd (scan cm N)) = int k"
      using scan_unique_best [OF k, of cm] gt others w by simp
    then have a: "km = int k" using sm by simp
    have "fst (scan cm' N) = cm (int k) \<and> snd (snd (scan cm' N)) = int ((k + n) mod N)"
      using scan_rotated_scores(2) [where c = cm and c' = cm' and n = n, OF Npos rm k] gt others w by simp
    then have b: "km' = int ((k + n) mod N)" using sm' by simp
    have "fst (KeyEDM_compute pcp st) =
        Inr \<lparr>key = keyNames ! j, scale = ''minor'', strength = m,
             firstToSecondRelativeStrength = relativeStrength m m2\<rparr>"
      using False out a j(2) by simp
    moreover have "fst (KeyEDM_compute pcp' st) =
        Inr \<lparr>key = keyNames ! ((j + 1) mod 12), scale = ''minor'', strength = m,
             firstToSecondRelativeStrength = relativeStrength m m2'\<rparr>"
      using False out' b j' by simp
    ultimately show ?thesis using j(1) by force
  qed
qed

theorem rotation_shifts_key_witness:
  "rotated pcp_major12 pcp_major12_rot \<and>
   unique_best (KeyEDM_winning_corr pcp_major12 temperley12) (length pcp_major12) \<and>
   (\<exists>out out'. fst (KeyEDM_compute pcp_major12 temperley12) = Inr out \<and>
      fst (KeyEDM_compute pcp_major12_rot temperley12) = Inr out' \<and>
      key out = ''A'' \<and> key out' = ''Bb'' \<and>
      scale out' = scale out \<and> strength out' = strength out)"
proof -
  have len: "12 \<le> length pcp_major12" "length pcp_major12 mod 12 = 0" by simp_all
  from rotation_shifts_key [OF len rotated_major12 temperley12_profiles(3) unique_best_major12]
  obtain out out' k where o: "fst (KeyEDM_compute pcp_major12 temperley12) = Inr out"
    "fst (KeyEDM_compute pcp_major12_rot temperley12) = Inr out'"
    "k < 12" "key out = keyNames ! k" "key out' = keyNames ! ((k + 1) mod 12)"
    "scale out' = scale out" "strength out' = strength out"
    by blast
  have "key out = ''A''" using o(1) by (auto simp: compute_major12)
  then have "keyNames ! k = keyNames ! 0" using o(4) by (simp add: keyNames_nth)
  then have "k = 0" using o(3) by (intro keyNames_index) simp_all
  then have "key out' = ''Bb''" using o(5) by (simp add: keyNames_nth)
  then show ?thesis
    using o \<open>key out = ''A''\<close> rotated_major12 unique_best_major12 by blast
qed


text \<open>
  Claim C8 as stated fails.  The PCP \<open>pcp_period6\<close> is not constant and repeats after
  six bins, so every score is reached at two shifts; the scan keeps the first.  For the PCP
  the first best shift of the winning mode is 5 (key D), for the rotated PCP it is 0
  (key A), not 6 (key Eb).  The scale and the strength are the same.
\<close>

theorem rotation_counterexample:
  "rotated pcp_period6 pcp_period6_rot \<and>
   fst (KeyEDM_compute pcp_period6 temperley12) =
     Inr \<lparr>key = ''D'', scale = ''minor'',
          strength = score (sqrt 27 * sqrt (803 / 48)) (31 / 4),
          firstToSecondRelativeStrength = Fin (6 / 31)\<rparr> \<and>
   fst (KeyEDM_compute pcp_period6_rot temperley12) =
     Inr \<lparr>key = ''A'', scale = ''minor'',
          strength = score (sqrt 27 * sqrt (803 / 48)) (31 / 4),
          firstToSecondRelativeStrength =
            Fin ((31 / 4 + sqrt 27 * sqrt (803 / 48)) / (31 / 4))\<rparr> \<and>
   keyNames ! 5 = ''D'' \<and> keyNames ! ((5 + 1) mod 12) = ''Eb'' \<and> keyNames ! 0 = ''A''"
  by (simp add: rotated_period6 compute_period6 compute_period6_rot keyNames_nth)

subsection \<open>Evaluation on a PCP of 24 bins\<close>

lemma upt24: "[0..<24] = [0, 1, 2, 3, 4, 5, 6, 7, 8, 9, 10, 11, 12, 13, 14, 15, 16, 17, 18, 19, 20, 21, 22, 23]"
  by (simp add: upt_rec)

lemma interpolate_map:
  assumes "0 < n"
  shows "interpolate T n (vector_resize (12 * n) old) = map (interp_value T n) [0..<12 * n]"
  using assms by (intro nth_equalityI) (simp_all add: interpolate_nth)

lemma temperley24_resize:
  "temperley24 = KeyEDM_resize 24 (KeyEDM_SET_PROFILE 0
      (KeyEDM_new\<lparr>edm_profileType := ''temperley'', edm_keys := keyNames\<rparr>))"
  by (simp add: temperley24_def KeyEDM_configured_def KeyEDM_configure_def)

lemma interp24:
  "map (interp_value [5, 2, 7 / 2, 2, 9 / 2, 4, 2, 9 / 2, 2, 7 / 2, 3 / 2, 4] 2) [0..<24] = temperley_major24"
  "map (interp_value [5, 2, 7 / 2, 9 / 2, 2, 4, 2, 9 / 2, 7 / 2, 2, 3 / 2, 4] 2) [0..<24] = temperley_minor24"
  unfolding upt24 temperley_major24_def temperley_minor24_def
  by (simp_all add: interp_value_def)

lemma temperley24_profiles:
  "edm_profile_doM temperley24 = temperley_major24"
  "edm_profile_dom temperley24 = temperley_minor24"
  "edm_keys temperley24 = keyNames"
proof -
  have i: "interpolate T 2 (vector_resize 24 old) = map (interp_value T 2) [0..<24]" for T old
    using interpolate_map [of 2 T old] by simp
  show "edm_profile_doM temperley24 = temperley_major24"
    "edm_profile_dom temperley24 = temperley_minor24"
    "edm_keys temperley24 = keyNames"
    by (simp_all add: temperley24_resize KeyEDM_SET_PROFILE_def KeyEDM_profileTypes_def
        KeyEDM_resize_def Let_def KeyEDM_new_def i interp24)
qed

lemma len24 [simp]:
  "length pcp_major24_rot = 24" "length temperley_major24 = 24" "length temperley_minor24 = 24"
  by (simp_all add: pcp_major24_rot_def temperley_major24_def temperley_minor24_def)

lemma stats24:
  "mean temperley_major24 = 77 / 24" "mean temperley_minor24 = 77 / 24"
  "mean pcp_major24_rot = 77 / 24"
  "sum_sq_dev temperley_major24 (77 / 24) 24 = 503 / 24"
  "sum_sq_dev temperley_minor24 (77 / 24) 24 = 271 / 12"
  "sum_sq_dev pcp_major24_rot (77 / 24) 24 = 503 / 24"
  unfolding sum_sq_dev_def upt24
  by (simp_all add: mean_def pcp_major24_rot_def temperley_major24_def temperley_minor24_def)

lemma nums_major24_rot:
  "map (\<lambda>s. corr_num pcp_major24_rot (77 / 24) temperley_major24 (77 / 24) (int s)) [0..<24] =
     [203 / 24, 503 / 24, 203 / 24, - 383 / 48, - 175 / 24, - 53 / 48, - 25 / 24, - 167 / 48,
      - 115 / 24, - 107 / 48, 167 / 24, 523 / 48, - 55 / 24, - 79 / 6, - 55 / 24, 523 / 48,
      167 / 24, - 107 / 48, - 115 / 24, - 167 / 48, - 25 / 24, - 53 / 48, - 175 / 24, - 383 / 48]"
  "map (\<lambda>s. corr_num pcp_major24_rot (77 / 24) temperley_minor24 (77 / 24) (int s)) [0..<24] =
     [179 / 24, 535 / 48, 101 / 24, - 41 / 12, - 43 / 24, - 5 / 48, - 181 / 24, - 581 / 48,
      - 43 / 24, 251 / 24, 281 / 24, 307 / 48, - 25 / 24, - 151 / 24, - 121 / 24, - 131 / 48,
      - 115 / 24, - 227 / 48, 95 / 24, 239 / 24, 47 / 24, - 377 / 48, - 175 / 24, - 35 / 48]"
  unfolding upt24 corr_num_def
  by (simp_all add: lessThan_Suc eval_nat_numeral pcp_major24_rot_def temperley_major24_def
      temperley_minor24_def)

lemma scan_list_major24_rot:
  assumes "0 < D"
  shows "scan_list (map (score D)
     [203 / 24, 503 / 24, 203 / 24, - 383 / 48, - 175 / 24, - 53 / 48, - 25 / 24, - 167 / 48,
      - 115 / 24, - 107 / 48, 167 / 24, 523 / 48, - 55 / 24, - 79 / 6, - 55 / 24, 523 / 48,
      167 / 24, - 107 / 48, - 115 / 24, - 167 / 48, - 25 / 24, - 53 / 48, - 175 / 24, - 383 / 48])
     = (score D (503 / 24), score D (203 / 24), 1)"
    and "scan_list (map (score D)
     [179 / 24, 535 / 48, 101 / 24, - 41 / 12, - 43 / 24, - 5 / 48, - 181 / 24, - 581 / 48,
      - 43 / 24, 251 / 24, 281 / 24, 307 / 48, - 25 / 24, - 151 / 24, - 121 / 24, - 131 / 48,
      - 115 / 24, - 227 / 48, 95 / 24, 239 / 24, 47 / 24, - 377 / 48, - 175 / 24, - 35 / 48])
     = (score D (281 / 24), score D (535 / 48), 10)"
  using assms
  by (simp_all add: scan_list_def enumerate_eq_zip upt24 update_def track0_def)

lemma temperley24_stats:
  "edm_mean_profile_M temperley24 = 77 / 24"
  "edm_mean_profile_m temperley24 = 77 / 24"
  "edm_std_profile_M temperley24 = sqrt (503 / 24)"
  "edm_std_profile_m temperley24 = sqrt (271 / 12)"
  using KeyEDM_resize_stats [of 24 "KeyEDM_SET_PROFILE 0
      (KeyEDM_new\<lparr>edm_profileType := ''temperley'', edm_keys := keyNames\<rparr>)",
      folded temperley24_resize]
  by (simp_all only: temperley24_profiles stats24)

lemma temperley24_prepare: "KeyEDM_prepare 24 temperley24 = temperley24"
  by (simp add: KeyEDM_prepare_def temperley24_profiles)

lemma D24:
  "sqrt (503 / 24) * sqrt (503 / 24) = (503 / 24 :: real)" "(0::real) < 503 / 24"
  "(0::real) < sqrt (503 / 24) * sqrt (271 / 12)"
  "(281 / 24 :: real) \<le> sqrt (503 / 24) * sqrt (271 / 12)"
proof -
  have "(281 / 24 :: real) \<le> sqrt (503 / 24 * (271 / 12))"
    by (rule real_le_rsqrt) (simp add: power2_eq_square)
  then show "(281 / 24 :: real) \<le> sqrt (503 / 24) * sqrt (271 / 12)"
    by (simp only: real_sqrt_mult)
qed simp_all

lemma tracks_major24_rot:
  "KeyEDM_tracks pcp_major24_rot temperley24 =
     ((score (503 / 24) (503 / 24), score (503 / 24) (203 / 24), 1),
      (score (sqrt (503 / 24) * sqrt (271 / 12)) (281 / 24),
       score (sqrt (503 / 24) * sqrt (271 / 12)) (535 / 48), 10))"
  by (simp only: KeyEDM_tracks_scores [OF len24(1) temperley24_prepare stats24(3),
        unfolded temperley24_profiles temperley24_stats stats24,
        OF nums_major24_rot D24(1) D24(2) refl D24(3)]
      scan_list_major24_rot [OF D24(2)] scan_list_major24_rot [OF D24(3)])

lemma compute_major24_rot:
  "KeyEDM_compute pcp_major24_rot temperley24 =
     (Inr \<lparr>key = ''A'', scale = ''major'', strength = Fin 1,
           firstToSecondRelativeStrength = Fin (300 / 503)\<rparr>, temperley24)"
proof -
  have ge: "fge (score (503 / 24) (503 / 24))
                (score (sqrt (503 / 24) * sqrt (271 / 12)) (281 / 24))"
    using D24(3,4) by (simp add: score_def fge_def pos_divide_le_eq less_le)
  have "fst (KeyEDM_compute pcp_major24_rot temperley24) =
     Inr \<lparr>key = ''A'', scale = ''major'', strength = Fin 1,
           firstToSecondRelativeStrength = Fin (300 / 503)\<rparr>"
    using KeyEDM_compute_spec [of pcp_major24_rot temperley24] ge
    by (simp add: temperley24_profiles tracks_major24_rot keyIndex_of_nonneg keyNames_nth
        relativeStrength_score) (simp add: score_def)
  moreover have "snd (KeyEDM_compute pcp_major24_rot temperley24) = temperley24"
    by (simp add: KeyEDM_compute_eq temperley24_prepare)
  ultimately show ?thesis by (simp add: prod_eq_iff)
qed

subsection \<open>Evaluation on a PCP with two equal best scores\<close>

text \<open>
  On \<open>pcp_tie\<close> the best major score and the best score of the third profile of Key2 are
  both reached at shift 0 and are equal; every minor score is smaller.
\<close>

lemma Key2_resize_stats:
  "k2_mean_profile_M (Key2_resize N st) = mean (k2_profile_doM (Key2_resize N st))"
  "k2_mean_profile_m (Key2_resize N st) = mean (k2_profile_dom (Key2_resize N st))"
  "k2_mean_profile_O (Key2_resize N st) = mean (k2_profile_doO (Key2_resize N st))"
  "k2_std_profile_M (Key2_resize N st) =
     sqrt (sum_sq_dev (k2_profile_doM (Key2_resize N st))
             (mean (k2_profile_doM (Key2_resize N st))) N)"
  "k2_std_profile_m (Key2_resize N st) =
     sqrt (sum_sq_dev (k2_profile_dom (Key2_resize N st))
             (mean (k2_profile_dom (Key2_resize N st))) N)"
  "k2_std_profile_O (Key2_resize N st) =
     sqrt (sum_sq_dev (k2_profile_doO (Key2_resize N st))
             (mean (k2_profile_doO (Key2_resize N st))) N)"
  by (simp_all add: Key2_resize_def Let_def)

lemma bmtg2_12_resize:
  "bmtg2_12 = Key2_resize 12 (Key2_SET_PROFILE 1
      (Key2_new\<lparr>k2_profileType := ''bmtg2'', k2_keys := keyNames\<rparr>))"
  by (simp add: bmtg2_12_def Key2_configured_def Key2_configure_def)

lemma bmtg2_12_profiles:
  "k2_profile_doM bmtg2_12 = bmtg2_major"
  "k2_profile_dom bmtg2_12 = bmtg2_minor"
  "k2_profile_doO bmtg2_12 = bmtg2_other"
  "k2_keys bmtg2_12 = keyNames"
  by (simp_all add: bmtg2_12_resize Key2_SET_PROFILE_def
     Key2_profileTypes_def Key2_resize_def Let_def Key2_new_def interp1
     bmtg2_major_def bmtg2_minor_def bmtg2_other_def)

lemma bmtg2_means:
  "mean bmtg2_major = 73 / 200" "mean bmtg2_minor = 73 / 200" "mean bmtg2_other = 239 / 600"
  by (simp_all add: mean_def bmtg2_major_def bmtg2_minor_def bmtg2_other_def)

lemma bmtg2_ssd:
  "sum_sq_dev bmtg2_major (73 / 200) 12 = 9069 / 10000"
  "sum_sq_dev bmtg2_minor (73 / 200) 12 = 7913 / 10000"
  "sum_sq_dev bmtg2_other (239 / 600) 12 = 19379 / 30000"
  by (simp_all add: sum_sq_dev_def upt_rec power2_eq_square
      bmtg2_major_def bmtg2_minor_def bmtg2_other_def)

lemma bmtg2_12_stats:
  "k2_mean_profile_M bmtg2_12 = 73 / 200"
  "k2_mean_profile_m bmtg2_12 = 73 / 200"
  "k2_mean_profile_O bmtg2_12 = 239 / 600"
  "k2_std_profile_M bmtg2_12 = sqrt (9069 / 10000)"
  "k2_std_profile_m bmtg2_12 = sqrt (7913 / 10000)"
  "k2_std_profile_O bmtg2_12 = sqrt (19379 / 30000)"
  using Key2_resize_stats [of 12 "Key2_SET_PROFILE 1
      (Key2_new\<lparr>k2_profileType := ''bmtg2'', k2_keys := keyNames\<rparr>)",
      folded bmtg2_12_resize]
  by (simp_all only: bmtg2_12_profiles bmtg2_means bmtg2_ssd)

lemma bmtg2_12_prepare: "Key2_prepare 12 bmtg2_12 = bmtg2_12"
  by (simp add: Key2_prepare_def bmtg2_12_profiles bmtg2_minor_def)

lemma rho_eq: "rho = sqrt (27207 / 19379)"
  unfolding rho_def bmtg2_12_stats
  by (simp add: real_sqrt_divide [symmetric])

lemma rho_sq: "rho * rho = 27207 / 19379"
  unfolding rho_eq by simp

lemma rho_bounds: "118 / 100 < rho" "rho < 119 / 100"
  unfolding rho_eq
  by (rule real_less_rsqrt, simp add: power2_eq_square)
     (rule real_less_lsqrt, simp_all add: power2_eq_square)

lemma pcp_tie_list:
  "pcp_tie = [1 + rho * 1, 0.10 + rho * 0.26, 0.42 + rho * 0.35, 0.10 + rho * 0.29,
     0.53 + rho * 0.44, 0.37 + rho * 0.36, 0.10 + rho * 0.21, 0.77 + rho * 0.78,
     0.10 + rho * 0.26, 0.38 + rho * 0.25, 0.21 + rho * 0.32, 0.30 + rho * 0.26]"
  by (simp add: pcp_tie_def bmtg2_major_def bmtg2_other_def)

lemma mean_tie: "mean pcp_tie = 73 / 200 + rho * (239 / 600)"
  by (simp add: mean_def pcp_tie_list algebra_simps)

lemma corr_num_linear:
  assumes "length xs = length ys"
  shows "corr_num (map2 (\<lambda>a b. a + r * b) xs ys) (mx + r * my) prof mp s =
         corr_num xs mx prof mp s + r * corr_num ys my prof mp s"
  using assms
  by (simp add: corr_num_def sum.distrib [symmetric] sum_distrib_left algebra_simps)

lemma nums_linear:
  assumes "length xs = length ys"
    and "map (\<lambda>s. corr_num xs mx prof mp (int s)) [0..<N] = as"
    and "map (\<lambda>s. corr_num ys my prof mp (int s)) [0..<N] = bs"
  shows "map (\<lambda>s. corr_num (map2 (\<lambda>a b. a + r * b) xs ys) (mx + r * my) prof mp (int s)) [0..<N] =
         map2 (\<lambda>a b. a + r * b) as bs"
  unfolding assms(2) [symmetric] assms(3) [symmetric]
  by (simp add: corr_num_linear [OF assms(1)] zip_map_map zip_same_conv_map)

lemma nums_bmtg2:
  "map (\<lambda>s. corr_num bmtg2_major (73 / 200) bmtg2_major (73 / 200) (int s)) [0..<12] =
     [9069 / 10000, - 2469 / 5000, 133 / 1250, - 157 / 2000, - 2109 / 10000, 2717 / 5000,
      - 6401 / 10000, 2717 / 5000, - 2109 / 10000, - 157 / 2000, 133 / 1250, - 2469 / 5000]"
  "map (\<lambda>s. corr_num bmtg2_major (73 / 200) bmtg2_minor (73 / 200) (int s)) [0..<12] =
     [3489 / 5000, - 4381 / 10000, 3089 / 10000, - 312 / 625, 501 / 2500, 363 / 1250,
      - 183 / 400, 2231 / 5000, - 4249 / 10000, 1737 / 5000, - 2397 / 10000, - 2317 / 10000]"
  "map (\<lambda>s. corr_num bmtg2_major (73 / 200) bmtg2_other (239 / 600) (int s)) [0..<12] =
     [1423 / 2000, - 401 / 1000, 1083 / 10000, - 163 / 625, 441 / 10000, 841 / 2500,
      - 4109 / 10000, 3887 / 10000, - 2807 / 10000, 1081 / 10000, - 1077 / 10000, - 59 / 250]"
  "map (\<lambda>s. corr_num bmtg2_other (239 / 600) bmtg2_major (73 / 200) (int s)) [0..<12] =
     [1423 / 2000, - 59 / 250, - 1077 / 10000, 1081 / 10000, - 2807 / 10000, 3887 / 10000,
      - 4109 / 10000, 841 / 2500, 441 / 10000, - 163 / 625, 1083 / 10000, - 401 / 1000]"
  "map (\<lambda>s. corr_num bmtg2_other (239 / 600) bmtg2_minor (73 / 200) (int s)) [0..<12] =
     [1681 / 2500, - 701 / 2500, 117 / 1250, - 101 / 400, 39 / 2500, 767 / 2500,
      - 781 / 2000, 3383 / 10000, - 1823 / 10000, 179 / 2000, - 569 / 5000, - 2967 / 10000]"
  "map (\<lambda>s. corr_num bmtg2_other (239 / 600) bmtg2_other (239 / 600) (int s)) [0..<12] =
     [19379 / 30000, - 3527 / 15000, - 1849 / 30000, - 2461 / 30000, - 1259 / 15000, 527 / 1875,
      - 8479 / 30000, 527 / 1875, - 1259 / 15000, - 2461 / 30000, - 1849 / 30000, - 3527 / 15000]"
  unfolding upt12 corr_num_def
  by (simp_all add: lessThan_Suc eval_nat_numeral bmtg2_major_def bmtg2_minor_def bmtg2_other_def)


lemma scan_scores_best:
  assumes sc: "map (\<lambda>s. c (int s)) [0..<N] = map (score D) ns" and D: "0 < D"
    and k: "k < N" "- D < ns ! k" and others: "\<forall>s<N. s \<noteq> k \<longrightarrow> ns ! s < ns ! k"
  shows "fst (scan c N) = score D (ns ! k)"
proof -
  have len: "length ns = N" using arg_cong [OF sc, of length] by simp
  have v: "c (int s) = score D (ns ! s)" if "s < N" for s
    using arg_cong [OF sc, of "\<lambda>l. l ! s"] that len by simp
  have "fgt (c (int k)) (Fin (- 1))" using v [OF k(1)] D k(2) by simp
  moreover have "\<forall>s<N. s \<noteq> k \<longrightarrow> \<not> fge (c (int s)) (c (int k))"
    using v v [OF k(1)] D others by (auto simp: not_le)
  ultimately show ?thesis
    using scan_unique_best [OF k(1), of c] v [OF k(1)] by simp
qed

lemma scan_scores_below:
  assumes sc: "map (\<lambda>s. c (int s)) [0..<N] = map (score D) ns"
    and v: "- 1 < v" and below: "\<forall>s<N. ns ! s / D < v"
  shows "fgt (Fin v) (fst (scan c N))"
proof -
  have len: "length ns = N" using arg_cong [OF sc, of length] by simp
  have c: "c (int s) = score D (ns ! s)" if "s < N" for s
    using arg_cong [OF sc, of "\<lambda>l. l ! s"] that len by simp
  from scan_max_cases [of c N] show ?thesis
  proof
    assume "fst (scan c N) = Fin (- 1)"
    then show ?thesis using v by simp
  next
    assume "\<exists>s<N. fst (scan c N) = c (int s)"
    then obtain s where s: "s < N" "fst (scan c N) = c (int s)" by blast
    then show ?thesis using c [OF s(1)] below by (simp add: score_def)
  qed
qed

lemma sum_sq_dev_pos:
  assumes "i < n" "v ! i \<noteq> mu"
  shows "0 < sum_sq_dev v mu n"
proof -
  have "(v ! i - mu)\<^sup>2 \<le> (\<Sum>i<n. (v ! i - mu)\<^sup>2)"
    using assms(1) by (intro member_le_sum) simp_all
  moreover have "0 < (v ! i - mu)\<^sup>2" using assms(2) by simp
  ultimately have "0 < (\<Sum>i<n. (v ! i - mu)\<^sup>2)" by linarith
  then show ?thesis by (simp add: sum_sq_dev_eq)
qed

lemma len_tie [simp]: "length pcp_tie = 12" "length bmtg2_major = 12" "length bmtg2_other = 12"
  by (simp_all add: pcp_tie_def bmtg2_major_def bmtg2_other_def)

lemma nums_tie:
  "map (\<lambda>s. corr_num pcp_tie (73 / 200 + rho * (239 / 600)) bmtg2_major (73 / 200) (int s)) [0..<12] =
   map2 (\<lambda>a b. a + rho * b)
     [9069 / 10000, - 2469 / 5000, 133 / 1250, - 157 / 2000, - 2109 / 10000, 2717 / 5000,
      - 6401 / 10000, 2717 / 5000, - 2109 / 10000, - 157 / 2000, 133 / 1250, - 2469 / 5000]
     [1423 / 2000, - 59 / 250, - 1077 / 10000, 1081 / 10000, - 2807 / 10000, 3887 / 10000,
      - 4109 / 10000, 841 / 2500, 441 / 10000, - 163 / 625, 1083 / 10000, - 401 / 1000]"
  "map (\<lambda>s. corr_num pcp_tie (73 / 200 + rho * (239 / 600)) bmtg2_minor (73 / 200) (int s)) [0..<12] =
   map2 (\<lambda>a b. a + rho * b)
     [3489 / 5000, - 4381 / 10000, 3089 / 10000, - 312 / 625, 501 / 2500, 363 / 1250,
      - 183 / 400, 2231 / 5000, - 4249 / 10000, 1737 / 5000, - 2397 / 10000, - 2317 / 10000]
     [1681 / 2500, - 701 / 2500, 117 / 1250, - 101 / 400, 39 / 2500, 767 / 2500,
      - 781 / 2000, 3383 / 10000, - 1823 / 10000, 179 / 2000, - 569 / 5000, - 2967 / 10000]"
  "map (\<lambda>s. corr_num pcp_tie (73 / 200 + rho * (239 / 600)) bmtg2_other (239 / 600) (int s)) [0..<12] =
   map2 (\<lambda>a b. a + rho * b)
     [1423 / 2000, - 401 / 1000, 1083 / 10000, - 163 / 625, 441 / 10000, 841 / 2500,
      - 4109 / 10000, 3887 / 10000, - 2807 / 10000, 1081 / 10000, - 1077 / 10000, - 59 / 250]
     [19379 / 30000, - 3527 / 15000, - 1849 / 30000, - 2461 / 30000, - 1259 / 15000, 527 / 1875,
      - 8479 / 30000, 527 / 1875, - 1259 / 15000, - 2461 / 30000, - 1849 / 30000, - 3527 / 15000]"
  unfolding pcp_tie_def
  by (rule nums_linear [OF _ nums_bmtg2(1) nums_bmtg2(4)], simp)
     (rule nums_linear [OF _ nums_bmtg2(2) nums_bmtg2(5)], simp,
      rule nums_linear [OF _ nums_bmtg2(3) nums_bmtg2(6)], simp)

lemma sp_tie: "0 < sqrt (sum_sq_dev pcp_tie (73 / 200 + rho * (239 / 600)) 12)"
proof -
  have "pcp_tie ! 0 \<noteq> 73 / 200 + rho * (239 / 600)"
    using rho_bounds by (simp add: pcp_tie_list)
  then show ?thesis using sum_sq_dev_pos [of 0 12 pcp_tie] by simp
qed

lemma tie_eq:
  assumes "0 < x" "0 < y" "0 < sp"
  shows "(x * x + x / y * b) / (sp * x) = (b + x / y * (y * y)) / (sp * (y::real))"
  using assms by (simp add: field_simps)

lemma sqrt_bounds:
  "sqrt (9069 / 10000) < 953 / 1000" "889 / 1000 < sqrt (7913 / 10000)"
proof -
  show "sqrt (9069 / 10000) < 953 / 1000"
    by (rule real_less_lsqrt) (simp_all add: power2_eq_square)
  show "889 / 1000 < sqrt (7913 / 10000)"
    by (rule real_less_rsqrt) (simp add: power2_eq_square)
qed

lemma minor_below:
  assumes sp: "0 < sp" and n: "n < 3 / 2"
  shows "n / (sp * sqrt (7913 / 10000)) <
         (9069 / 10000 + rho * (1423 / 2000)) / (sp * sqrt (9069 / 10000))"
proof -
  have x: "0 < sqrt (9069 / 10000 :: real)" and y: "0 < sqrt (7913 / 10000 :: real)" by simp_all
  have top: "174 / 100 < 9069 / 10000 + rho * (1423 / 2000)" using rho_bounds by simp
  have "n * sqrt (9069 / 10000) < (3 / 2) * (953 / 1000)"
  proof (cases "0 \<le> n")
    case True
    have "n * sqrt (9069 / 10000) \<le> n * (953 / 1000)"
      using True sqrt_bounds(1) by (intro mult_left_mono) simp_all
    also have "\<dots> < (3 / 2) * (953 / 1000)" using n by simp
    finally show ?thesis .
  next
    case False
    then have "n * sqrt (9069 / 10000) \<le> 0"
      by (simp add: mult_le_0_iff)
    then show ?thesis by simp
  qed
  also have "\<dots> < (174 / 100) * (889 / 1000)" by simp
  also have "\<dots> < (9069 / 10000 + rho * (1423 / 2000)) * sqrt (7913 / 10000)"
    using top sqrt_bounds(2) by (intro mult_strict_mono) simp_all
  finally have "n * sqrt (9069 / 10000) <
     (9069 / 10000 + rho * (1423 / 2000)) * sqrt (7913 / 10000)" .
  then show ?thesis using sp x y by (simp add: field_simps)
qed


lemma finite_scores_scores:
  assumes "map (\<lambda>s. c (int s)) [0..<N] = map (score D) ns"
  shows "finite_scores c N"
proof -
  have "list_all is_finite (map (score D) ns)"
    by (simp add: list_all_iff is_finite_def score_def)
  then have "list_all is_finite (map (\<lambda>s. c (int s)) [0..<N])"
    using assms by simp
  then show ?thesis by (simp add: finite_scores_def list_all_iff)
qed

lemma scores_tie:
  defines "sp \<equiv> sqrt (sum_sq_dev pcp_tie (73 / 200 + rho * (239 / 600)) 12)"
  shows "map (\<lambda>s. pcp_corr pcp_tie bmtg2_major (73 / 200) (sqrt (9069 / 10000)) (int s)) [0..<12] =
         map (score (sp * sqrt (9069 / 10000))) (map2 (\<lambda>a b. a + rho * b)
     [9069 / 10000, - 2469 / 5000, 133 / 1250, - 157 / 2000, - 2109 / 10000, 2717 / 5000,
      - 6401 / 10000, 2717 / 5000, - 2109 / 10000, - 157 / 2000, 133 / 1250, - 2469 / 5000]
     [1423 / 2000, - 59 / 250, - 1077 / 10000, 1081 / 10000, - 2807 / 10000, 3887 / 10000,
      - 4109 / 10000, 841 / 2500, 441 / 10000, - 163 / 625, 1083 / 10000, - 401 / 1000])"
    and "map (\<lambda>s. pcp_corr pcp_tie bmtg2_minor (73 / 200) (sqrt (7913 / 10000)) (int s)) [0..<12] =
         map (score (sp * sqrt (7913 / 10000))) (map2 (\<lambda>a b. a + rho * b)
     [3489 / 5000, - 4381 / 10000, 3089 / 10000, - 312 / 625, 501 / 2500, 363 / 1250,
      - 183 / 400, 2231 / 5000, - 4249 / 10000, 1737 / 5000, - 2397 / 10000, - 2317 / 10000]
     [1681 / 2500, - 701 / 2500, 117 / 1250, - 101 / 400, 39 / 2500, 767 / 2500,
      - 781 / 2000, 3383 / 10000, - 1823 / 10000, 179 / 2000, - 569 / 5000, - 2967 / 10000])"
    and "map (\<lambda>s. pcp_corr pcp_tie bmtg2_other (239 / 600) (sqrt (19379 / 30000)) (int s)) [0..<12] =
         map (score (sp * sqrt (19379 / 30000))) (map2 (\<lambda>a b. a + rho * b)
     [1423 / 2000, - 401 / 1000, 1083 / 10000, - 163 / 625, 441 / 10000, 841 / 2500,
      - 4109 / 10000, 3887 / 10000, - 2807 / 10000, 1081 / 10000, - 1077 / 10000, - 59 / 250]
     [19379 / 30000, - 3527 / 15000, - 1849 / 30000, - 2461 / 30000, - 1259 / 15000, 527 / 1875,
      - 8479 / 30000, 527 / 1875, - 1259 / 15000, - 2461 / 30000, - 1849 / 30000, - 3527 / 15000])"
proof -
  have sp: "0 < sp" unfolding sp_def by (rule sp_tie)
  have D: "sqrt (sum_sq_dev pcp_tie (73 / 200 + rho * (239 / 600)) (length pcp_tie)) * sd = sp * sd"
    for sd by (simp add: sp_def)
  show "map (\<lambda>s. pcp_corr pcp_tie bmtg2_major (73 / 200) (sqrt (9069 / 10000)) (int s)) [0..<12] =
         map (score (sp * sqrt (9069 / 10000))) (map2 (\<lambda>a b. a + rho * b)
     [9069 / 10000, - 2469 / 5000, 133 / 1250, - 157 / 2000, - 2109 / 10000, 2717 / 5000,
      - 6401 / 10000, 2717 / 5000, - 2109 / 10000, - 157 / 2000, 133 / 1250, - 2469 / 5000]
     [1423 / 2000, - 59 / 250, - 1077 / 10000, 1081 / 10000, - 2807 / 10000, 3887 / 10000,
      - 4109 / 10000, 841 / 2500, 441 / 10000, - 163 / 625, 1083 / 10000, - 401 / 1000])"
    using sp by (intro pcp_scores [OF mean_tie nums_tie(1) D]) simp
  show "map (\<lambda>s. pcp_corr pcp_tie bmtg2_minor (73 / 200) (sqrt (7913 / 10000)) (int s)) [0..<12] =
         map (score (sp * sqrt (7913 / 10000))) (map2 (\<lambda>a b. a + rho * b)
     [3489 / 5000, - 4381 / 10000, 3089 / 10000, - 312 / 625, 501 / 2500, 363 / 1250,
      - 183 / 400, 2231 / 5000, - 4249 / 10000, 1737 / 5000, - 2397 / 10000, - 2317 / 10000]
     [1681 / 2500, - 701 / 2500, 117 / 1250, - 101 / 400, 39 / 2500, 767 / 2500,
      - 781 / 2000, 3383 / 10000, - 1823 / 10000, 179 / 2000, - 569 / 5000, - 2967 / 10000])"
    using sp by (intro pcp_scores [OF mean_tie nums_tie(2) D]) simp
  show "map (\<lambda>s. pcp_corr pcp_tie bmtg2_other (239 / 600) (sqrt (19379 / 30000)) (int s)) [0..<12] =
         map (score (sp * sqrt (19379 / 30000))) (map2 (\<lambda>a b. a + rho * b)
     [1423 / 2000, - 401 / 1000, 1083 / 10000, - 163 / 625, 441 / 10000, 841 / 2500,
      - 4109 / 10000, 3887 / 10000, - 2807 / 10000, 1081 / 10000, - 1077 / 10000, - 59 / 250]
     [19379 / 30000, - 3527 / 15000, - 1849 / 30000, - 2461 / 30000, - 1259 / 15000, 527 / 1875,
      - 8479 / 30000, 527 / 1875, - 1259 / 15000, - 2461 / 30000, - 1849 / 30000, - 3527 / 15000])"
    using sp by (intro pcp_scores [OF mean_tie nums_tie(3) D]) simp
qed

lemma Key2_tracks_tie:
  "Key2_tracks pcp_tie bmtg2_12 =
     (scan (pcp_corr pcp_tie bmtg2_major (73 / 200) (sqrt (9069 / 10000))) 12,
      scan (pcp_corr pcp_tie bmtg2_minor (73 / 200) (sqrt (7913 / 10000))) 12,
      scan (pcp_corr pcp_tie bmtg2_other (239 / 600) (sqrt (19379 / 30000))) 12)"
  by (simp add: Key2_tracks_def bmtg2_12_prepare bmtg2_12_profiles bmtg2_12_stats)

lemma best_tie:
  defines "sp \<equiv> sqrt (sum_sq_dev pcp_tie (73 / 200 + rho * (239 / 600)) 12)"
  shows "fst (scan (pcp_corr pcp_tie bmtg2_major (73 / 200) (sqrt (9069 / 10000))) 12) =
           score (sp * sqrt (9069 / 10000)) (9069 / 10000 + rho * (1423 / 2000))"
    and "fst (scan (pcp_corr pcp_tie bmtg2_other (239 / 600) (sqrt (19379 / 30000))) 12) =
           score (sp * sqrt (9069 / 10000)) (9069 / 10000 + rho * (1423 / 2000))"
    and "fgt (score (sp * sqrt (9069 / 10000)) (9069 / 10000 + rho * (1423 / 2000)))
           (fst (scan (pcp_corr pcp_tie bmtg2_minor (73 / 200) (sqrt (7913 / 10000))) 12))"
proof -
  have sp: "0 < sp" unfolding sp_def by (rule sp_tie)
  note sc = scores_tie [folded sp_def]
  have n0: "- (sp * sqrt (9069 / 10000)) < 9069 / 10000 + rho * 1423 / 2000"
  proof -
    have "0 < sp * sqrt (9069 / 10000)" using sp by simp
    moreover have "0 < 9069 / 10000 + rho * 1423 / 2000" using rho_bounds by simp
    ultimately show ?thesis by linarith
  qed
  have n0': "- (sp * sqrt (19379 / 30000)) < 1423 / 2000 + rho * 19379 / 30000"
  proof -
    have "0 < sp * sqrt (19379 / 30000)" using sp by simp
    moreover have "0 < 1423 / 2000 + rho * 19379 / 30000" using rho_bounds by simp
    ultimately show ?thesis by linarith
  qed
  have DM: "0 < sp * sqrt (9069 / 10000)" and DO: "0 < sp * sqrt (19379 / 30000)"
    using sp by simp_all
  have "fst (scan (pcp_corr pcp_tie bmtg2_major (73 / 200) (sqrt (9069 / 10000))) 12) =
           score (sp * sqrt (9069 / 10000)) (9069 / 10000 + rho * (1423 / 2000))"
    using scan_scores_best [OF sc(1), of 0] sp rho_bounds DM n0
    by (simp add: all_less_12)
  then show "fst (scan (pcp_corr pcp_tie bmtg2_major (73 / 200) (sqrt (9069 / 10000))) 12) =
           score (sp * sqrt (9069 / 10000)) (9069 / 10000 + rho * (1423 / 2000))" .
  have "fst (scan (pcp_corr pcp_tie bmtg2_other (239 / 600) (sqrt (19379 / 30000))) 12) =
           score (sp * sqrt (19379 / 30000)) (1423 / 2000 + rho * (19379 / 30000))"
    using scan_scores_best [OF sc(3), of 0] sp rho_bounds DO n0'
    by (simp add: all_less_12)
  moreover have "score (sp * sqrt (19379 / 30000)) (1423 / 2000 + rho * (19379 / 30000)) =
      score (sp * sqrt (9069 / 10000)) (9069 / 10000 + rho * (1423 / 2000))"
    using tie_eq [of "sqrt (9069 / 10000)" "sqrt (19379 / 30000)" sp "1423 / 2000"] sp
    by (simp add: score_def rho_def bmtg2_12_stats)
  ultimately show "fst (scan (pcp_corr pcp_tie bmtg2_other (239 / 600) (sqrt (19379 / 30000))) 12) =
           score (sp * sqrt (9069 / 10000)) (9069 / 10000 + rho * (1423 / 2000))" by simp
  have pos: "0 < (9069 / 10000 + rho * (1423 / 2000)) / (sp * sqrt (9069 / 10000))"
    using sp rho_bounds by (simp add: zero_less_divide_iff)
  have "fgt (Fin ((9069 / 10000 + rho * (1423 / 2000)) / (sp * sqrt (9069 / 10000))))
           (fst (scan (pcp_corr pcp_tie bmtg2_minor (73 / 200) (sqrt (7913 / 10000))) 12))"
  proof (rule scan_scores_below [OF sc(2)])
    show "- 1 < (9069 / 10000 + rho * (1423 / 2000)) / (sp * sqrt (9069 / 10000))"
      using pos by simp
    have "\<forall>s<12. map2 (\<lambda>a b. a + rho * b)
     [3489 / 5000, - 4381 / 10000, 3089 / 10000, - 312 / 625, 501 / 2500, 363 / 1250,
      - 183 / 400, 2231 / 5000, - 4249 / 10000, 1737 / 5000, - 2397 / 10000, - 2317 / 10000]
     [1681 / 2500, - 701 / 2500, 117 / 1250, - 101 / 400, 39 / 2500, 767 / 2500,
      - 781 / 2000, 3383 / 10000, - 1823 / 10000, 179 / 2000, - 569 / 5000, - 2967 / 10000] ! s
        < 3 / 2"
      using rho_bounds by (simp add: all_less_12)
    then show "\<forall>s<12. map2 (\<lambda>a b. a + rho * b)
     [3489 / 5000, - 4381 / 10000, 3089 / 10000, - 312 / 625, 501 / 2500, 363 / 1250,
      - 183 / 400, 2231 / 5000, - 4249 / 10000, 1737 / 5000, - 2397 / 10000, - 2317 / 10000]
     [1681 / 2500, - 701 / 2500, 117 / 1250, - 101 / 400, 39 / 2500, 767 / 2500,
      - 781 / 2000, 3383 / 10000, - 1823 / 10000, 179 / 2000, - 569 / 5000, - 2967 / 10000] ! s
        / (sp * sqrt (7913 / 10000))
        < (9069 / 10000 + rho * (1423 / 2000)) / (sp * sqrt (9069 / 10000))"
      using minor_below [OF sp] by blast
  qed
  then show "fgt (score (sp * sqrt (9069 / 10000)) (9069 / 10000 + rho * (1423 / 2000)))
           (fst (scan (pcp_corr pcp_tie bmtg2_minor (73 / 200) (sqrt (7913 / 10000))) 12))"
    by (simp add: score_def)
qed

lemma compute_tie: "fst (Key2_compute pcp_tie bmtg2_12) = Inl KeyNotFound"
  using best_tie
  by (simp add: Key2_compute_KeyNotFound_iff bmtg2_12_profiles Key2_tracks_tie split_beta)

lemma finite_tie:
  "finite_scores (pcp_corr pcp_tie bmtg2_major (73 / 200) (sqrt (9069 / 10000))) 12"
  "finite_scores (pcp_corr pcp_tie bmtg2_minor (73 / 200) (sqrt (7913 / 10000))) 12"
  "finite_scores (pcp_corr pcp_tie bmtg2_other (239 / 600) (sqrt (19379 / 30000))) 12"
  by (rule finite_scores_scores, rule scores_tie)+

subsection \<open>Claims that the code does not meet\<close>

text \<open>
  Claim C2 (not met by Key2).  The claim is that \<open>compute\<close> does not throw KeyNotFound
  when all scores are finite.  In Key2, with the finite scores below (best major score
  1/2 equal to the best score of the third profile, best minor score 1/5), no branch of the
  cascade is taken and the exception is thrown.  So it is for the PCP \<open>pcp_tie\<close> on the
  profile type bmtg2: all its scores are finite, the best major score and the best score of
  the third profile are equal, and \<open>compute\<close> throws KeyNotFound.
  Lemma \<open>Key2_compute_KeyNotFound_iff\<close> gives the exact condition, and lemma
  \<open>KeyEDM_compute_never_KeyNotFound\<close> shows that KeyEDM, whose cascade ends in a plain
  \<^verbatim>\<open>else\<close>, never throws it.  When no score is comparable the key index is 0, not
  negative (lemma \<open>decide_all_NaN\<close>).
\<close>

theorem Key2_KeyNotFound_with_finite_scores:
  "Key2_decide keyNames
     (Key2_scan (\<lambda>shift. Fin (if shift = 0 then 1 / 2 else 0))
                (\<lambda>shift. Fin (if shift = 0 then 1 / 5 else 0))
                (\<lambda>shift. Fin (if shift = 0 then 1 / 2 else 0)) 12) 12
   = Inl KeyNotFound \<and>
   finite_scores (pcp_corr pcp_tie (k2_profile_doM bmtg2_12) (k2_mean_profile_M bmtg2_12)
     (k2_std_profile_M bmtg2_12)) 12 \<and>
   finite_scores (pcp_corr pcp_tie (k2_profile_dom bmtg2_12) (k2_mean_profile_m bmtg2_12)
     (k2_std_profile_m bmtg2_12)) 12 \<and>
   finite_scores (pcp_corr pcp_tie (k2_profile_doO bmtg2_12) (k2_mean_profile_O bmtg2_12)
     (k2_std_profile_O bmtg2_12)) 12 \<and>
   Key2_compute pcp_tie bmtg2_12 = (Inl KeyNotFound, bmtg2_12)"
proof -
  have "Key2_decide keyNames
     (Key2_scan (\<lambda>shift. Fin (if shift = 0 then 1 / 2 else 0))
                (\<lambda>shift. Fin (if shift = 0 then 1 / 5 else 0))
                (\<lambda>shift. Fin (if shift = 0 then 1 / 2 else 0)) 12) 12
   = Inl KeyNotFound"
    by (simp add: Key2_decide_def Key2_scan_def upt_rec update_def track0_def Key2_select_def
        fge_def)
  moreover have "snd (Key2_compute pcp_tie bmtg2_12) = bmtg2_12"
    by (simp add: Key2_compute_eq bmtg2_12_prepare)
  ultimately show ?thesis
    using compute_tie finite_tie
    by (simp add: prod_eq_iff bmtg2_12_profiles bmtg2_12_stats)
qed

lemma scan_all_NaN: "scan (\<lambda>shift. NaN) N = track0"
  by (induction N) (simp_all add: scan_Suc update_def track0_def)

lemma decide_all_NaN:
  assumes "12 \<le> N"
  shows "KeyEDM_decide keyNames (track0, track0) N =
           Inr \<lparr>key = ''A'', scale = ''major'', strength = Fin (- 1),
                firstToSecondRelativeStrength = Fin 0\<rparr>"
    and "Key2_decide keyNames (track0, track0, track0) N =
           Inr \<lparr>key = ''A'', scale = ''minor'', strength = Fin (- 1),
                firstToSecondRelativeStrength = Fin 0\<rparr>"
  using assms
  by (simp_all add: KeyEDM_decide_def KeyEDM_select_def Key2_decide_def Key2_select_def
      track0_def fge_def keyIndex_of_m1 key_at_def keyNames_def KeyEDM_scale_name_def
      Key2_scale_name_def relativeStrength_def)

text \<open>
  Claim C3 (not met).  The claim is that the key index is the quotient
  \<open>bestShiftIndex * 12 / N\<close> of real numbers rounded half up.  The code divides integers
  first, so that adding 0.5 and truncating changes nothing (lemma \<open>keyIndex_of_nonneg\<close>):
  for 24 bins and shift 1, and for 36 bins and shift 2, the code gives 0 where the rounded
  quotient is 1.  For the PCP \<open>pcp_major24_rot\<close> of 24 bins the best shift is 1 (the major
  score there is 1) and \<open>compute\<close> returns the key A; the rounded quotient gives Bb.
\<close>

theorem keyIndex_not_rounded:
  "keyIndex_of 1 24 = 0 \<and> c_int_cast (real_of_int 1 * 12 / real 24 + 0.5) = 1 \<and>
   keyIndex_of 2 36 = 0 \<and> c_int_cast (real_of_int 2 * 12 / real 36 + 0.5) = 1 \<and>
   KeyEDM_tracks pcp_major24_rot temperley24 =
     ((score (503 / 24) (503 / 24), score (503 / 24) (203 / 24), 1),
      (score (sqrt (503 / 24) * sqrt (271 / 12)) (281 / 24),
       score (sqrt (503 / 24) * sqrt (271 / 12)) (535 / 48), 10)) \<and>
   KeyEDM_compute pcp_major24_rot temperley24 =
     (Inr \<lparr>key = ''A'', scale = ''major'', strength = Fin 1,
           firstToSecondRelativeStrength = Fin (300 / 503)\<rparr>, temperley24) \<and>
   keyNames ! nat (c_int_cast (real_of_int 1 * 12 / real 24 + 0.5)) = ''Bb''"
proof -
  have "keyIndex_of 1 24 = 0 \<and> c_int_cast (real_of_int 1 * 12 / real 24 + 0.5) = 1 \<and>
        keyIndex_of 2 36 = 0 \<and> c_int_cast (real_of_int 2 * 12 / real 36 + 0.5) = 1"
    by (simp add: keyIndex_of_def c_int_cast_def signed_divide_int_def)
  then show ?thesis
    by (simp add: tracks_major24_rot compute_major24_rot keyNames_nth)
qed

text \<open>
  Claim C4 (not met).  The claim is that the second variable of the scan is the
  second-highest score over all shifts.  The scan only moves the previous maximum into it
  when the maximum is replaced: for the scores 9/10 at shift 0 and 1/2 at every other shift
  it ends as the initial \<open>-1\<close>.  So it does for the PCP \<open>pcp_major12\<close>, whose major
  score is 1 at shift 0 and 467/803 at shift 5: \<open>compute\<close> returns the relative strength
  \<open>(1 - (-1)) / 1 = 2\<close>.  Lemma \<open>scan_char\<close> states what the three variables are: the
  maximum, the maximum of the scores before the best shift, and the first best shift.
\<close>

theorem scan_second_max_counterexample:
  "scan (\<lambda>shift. Fin (if shift = 0 then 9 / 10 else 1 / 2)) 12 = (Fin (9 / 10), Fin (- 1), 0) \<and>
   KeyEDM_tracks pcp_major12 temperley12 =
     ((Fin 1, Fin (- 1), 0), (Fin (407 / 803), Fin (395 / 803), 9)) \<and>
   pcp_corr pcp_major12 (edm_profile_doM temperley12) (edm_mean_profile_M temperley12)
     (edm_std_profile_M temperley12) 5 = Fin (467 / 803) \<and>
   KeyEDM_compute pcp_major12 temperley12 =
     (Inr \<lparr>key = ''A'', scale = ''major'', strength = Fin 1,
           firstToSecondRelativeStrength = Fin 2\<rparr>, temperley12)"
proof -
  have "scan (\<lambda>shift. Fin (if shift = 0 then 9 / 10 else 1 / 2)) 12 =
          (Fin (9 / 10), Fin (- 1), 0)"
    by (simp add: scan_def upt_rec update_def track0_def)
  moreover have "pcp_corr pcp_major12 pcp_major12 (77 / 24) (sqrt (803 / 48)) 5 =
          Fin (467 / 803)"
    unfolding pcp_corr_def correlation_eq mean_major len12 ssd_major
    by (simp add: lessThan_Suc eval_nat_numeral pcp_major12_def)
  ultimately show ?thesis
    by (simp add: tracks_major12 compute_major12 temperley12_profiles temperley12_stats
        score_def)
qed

end
